theory Spec2Isabelle
  imports Complex_Main "HOL-Library.Word"
begin

section \<open>The sound-effects module \<open>pxr::sfx\<close>\<close>

text \<open>
  A shallow embedding of the module data of \<open>pxr_sfx.cpp\<close> and of its functions that
  load, play and unload sounds, set channel volumes and initialize the module. The
  module's global variables become one record that every function takes and returns;
  an \<open>assert\<close> that fails, an access outside a vector and the other ways a call can die
  are values of the type \<open>failure\<close>, returned on the left of a sum.

  The reference count of a sound is a C++ \<open>int\<close>: a word of 32 bits, read as a signed
  number by \<open>sint\<close>. Its increment wraps around from \<open>INT_MAX\<close> to \<open>INT_MIN\<close>, which is
  what the compiled increment does where C++ leaves the overflow undefined. Resource keys
  are of the type \<open>ResourceKey_t\<close>, which is declared in a header that is not at hand;
  they are integers here.

  The SDL mixer backend, the WAV decoder and the logger are outside the file. What the
  backend answers is passed to each function as an argument named after the backend call;
  the logger is the list \<open>logged\<close> of the lines written so far.
\<close>

subsection \<open>Types of the header\<close>

type_synonym ResourceKey_t = int
type_synonym ResourceName_t = string
type_synonym SoundChannel_t = int

text \<open>
  The constants that \<open>pxr_sfx.cpp\<close> takes from headers that are not part of the sources
  at hand (\<open>pxr_sfx.h\<close>, \<open>pxr_wav.h\<close>) are the fields of one record, a parameter of every
  function that reads one of them.
\<close>

record header =
  NULL_CHANNEL :: SoundChannel_t
  ALL_CHANNELS :: SoundChannel_t
  MIN_VOLUME :: int
  MAX_VOLUME :: int
  RESOURCE_PATH_SOUNDS :: string
  FILE_EXTENSION :: string
  MONO :: int
  STEREO :: int

text \<open>
  The sample formats that \<open>generateErrorSound\<close> switches on. Every floating-point format
  is \<open>SAMPLE_FORMAT_FLOAT\<close> and every other format (the big-endian ones) is
  \<open>SAMPLE_FORMAT_OTHER\<close>.
\<close>

datatype SampleFormat =
  SAMPLE_FORMAT_U8 | SAMPLE_FORMAT_S8 | SAMPLE_FORMAT_U16LSB | SAMPLE_FORMAT_S16LSB
  | SAMPLE_FORMAT_S32LSB | SAMPLE_FORMAT_FLOAT | SAMPLE_FORMAT_OTHER

record SFXConfiguration =
  samplingFreq_hz :: int
  sampleFormat :: SampleFormat
  outputMode :: int
  numMixChannels :: int
  chunkSize :: int

record Mix_Chunk =
  allocated :: int
  abuf :: "int list"
  alen :: nat
  volume :: int

type_synonym c_int = "32 word"

record SoundResource =
  name :: string
  chunk :: "Mix_Chunk option"
  referenceCount :: c_int

datatype failure =
  AssertionFailed | OutOfRange | LengthError | BadArrayNewLength | FloatToIntOutOfRange

subsection \<open>The logger\<close>

datatype Level = INFO | WARN | ERROR

datatype Message =
  msg_sfx_initializing | msg_sfx_fail_open_audio | msg_sfx_fail_query_spec
  | msg_sfx_error_sound_usage | msg_sfx_loading_sound | msg_sfx_sound_already_loaded
  | msg_sfx_fail_load_sound | msg_sfx_using_error_sound | msg_sfx_load_sound_success
  | msg_sfx_unloading_nonexistent_sound | msg_sfx_already_unloading_sound
  | msg_sfx_playing_nonexistent_sound | msg_sfx_fail_play_sound
  | Literal string

type_synonym log_line = "Level \<times> Message \<times> string"

text \<open>\<open>std::to_string\<close> on an \<open>int\<close>: decimal digits, a minus sign when negative.\<close>

definition digit_char :: "nat \<Rightarrow> char" where
  "digit_char d = char_of (48 + d)"

fun nat_to_string :: "nat \<Rightarrow> string" where
  "nat_to_string n =
     (if n < 10 then [digit_char n] else nat_to_string (n div 10) @ [digit_char (n mod 10)])"

declare nat_to_string.simps [simp del]

definition to_string :: "int \<Rightarrow> string" where
  "to_string i = (if i < 0 then CHR ''-'' # nat_to_string (nat (- i)) else nat_to_string (nat i))"

subsection \<open>Module data\<close>

record sfx =
  errorSoundKey :: ResourceKey_t
  nextResourceKey :: ResourceKey_t
  sounds :: "(ResourceKey_t \<times> SoundResource) list"
  sfxconfiguration :: SFXConfiguration
  channelPlayback :: "ResourceKey_t list"
  channelVolume :: "int list"
  unloadQueue :: "ResourceKey_t list"
  mix_channel_volume :: "int list"
  logged :: "log_line list"

text \<open>
  \<open>sounds\<close> is the \<open>std::unordered_map\<close>: an association list whose order is the order
  in which a range-for visits the entries. \<open>mix_channel_volume\<close> is not a variable of the
  module but the volume that the SDL mixer keeps for each of its channels, which
  \<open>setChannelVolume\<close> reads back through \<open>Mix_Volume\<close>.
\<close>

definition errorSoundFreq_hz :: int where
  "errorSoundFreq_hz = 200"

definition errorSoundVolume :: "header \<Rightarrow> int" where
  "errorSoundVolume h = MAX_VOLUME h"

definition errorSoundName :: ResourceName_t where
  "errorSoundName = ''sfxerror''"

definition nullResourceKey :: ResourceKey_t where
  "nullResourceKey = - 1"

definition log_line :: "Level \<Rightarrow> Message \<Rightarrow> string \<Rightarrow> sfx \<Rightarrow> sfx" where
  "log_line lvl m addendum s = s\<lparr>logged := logged s @ [(lvl, m, addendum)]\<rparr>"

text \<open>The values the globals are initialised with, before \<open>initialize\<close> runs.\<close>

definition module_data :: "SFXConfiguration \<Rightarrow> sfx" where
  "module_data conf =
     \<lparr>errorSoundKey = 0, nextResourceKey = 0, sounds = [], sfxconfiguration = conf,
      channelPlayback = [], channelVolume = [], unloadQueue = [],
      mix_channel_volume = [], logged = []\<rparr>"

subsection \<open>The unordered map\<close>

definition sounds_find :: "ResourceKey_t \<Rightarrow> (ResourceKey_t \<times> SoundResource) list \<Rightarrow> SoundResource option" where
  "sounds_find k ps = map_of ps k"

text \<open>\<open>emplace\<close> inserts nothing when the key is taken.\<close>

definition sounds_emplace ::
  "ResourceKey_t \<Rightarrow> SoundResource \<Rightarrow> (ResourceKey_t \<times> SoundResource) list \<Rightarrow> (ResourceKey_t \<times> SoundResource) list" where
  "sounds_emplace k r ps = (if map_of ps k = None then ps @ [(k, r)] else ps)"

definition sounds_erase ::
  "ResourceKey_t \<Rightarrow> (ResourceKey_t \<times> SoundResource) list \<Rightarrow> (ResourceKey_t \<times> SoundResource) list" where
  "sounds_erase k ps = filter (\<lambda>p. fst p \<noteq> k) ps"

text \<open>\<open>search->second._referenceCount++\<close> on the entry that \<open>find\<close> returned.\<close>

fun increment_reference ::
  "ResourceKey_t \<Rightarrow> (ResourceKey_t \<times> SoundResource) list \<Rightarrow> (ResourceKey_t \<times> SoundResource) list" where
  "increment_reference k [] = []"
| "increment_reference k ((k', r) # ps) =
     (if k' = k then (k', r\<lparr>referenceCount := referenceCount r + 1\<rparr>) # ps
      else (k', r) # increment_reference k ps)"

subsection \<open>Channel completion\<close>

definition onChannelFinished :: "int \<Rightarrow> sfx \<Rightarrow> failure + sfx" where
  "onChannelFinished channel s =
     (if \<not> (0 \<le> channel \<and> channel < numMixChannels (sfxconfiguration s)) then Inl AssertionFailed
      else if \<not> nat channel < length (channelPlayback s) then Inl OutOfRange
      else Inr (s\<lparr>channelPlayback := (channelPlayback s)[nat channel := nullResourceKey]\<rparr>))"

subsection \<open>Single-precision arithmetic of the chunk generator\<close>

text \<open>
  \<open>generateSineBeep\<close> computes its sample count as \<open>int * float\<close> converted to
  \<open>int\<close>. A binary32 number is \<open>Finite m e\<close>, of value \<open>m * 2^e\<close>, an infinity or a
  NaN. \<open>round_f32 m e\<close> is the binary32 number nearest to \<open>m * 2^e\<close>, ties to even:
  24 bits of significand, exponents from \<open>-149\<close>, infinity from \<open>2^128\<close> on.
\<close>

datatype float32 = Finite int int | Infinity bool | NaN

function bitlen :: "int \<Rightarrow> nat" where
  "bitlen n = (if n \<le> 0 then 0 else Suc (bitlen (n div 2)))"
  by pat_completeness auto
termination
  by (relation "measure nat") auto

declare bitlen.simps [simp del]

definition round_f32 :: "int \<Rightarrow> int \<Rightarrow> float32" where
  "round_f32 m e =
     (let a = \<bar>m\<bar>;
          t = max (e + int (bitlen a) - 24) (- 149);
          k = nat (t - e);
          q = a div 2 ^ k;
          r = a mod 2 ^ k;
          q' = (if t \<le> e then a
                else if 2 ^ (k - 1) < r \<or> (r = 2 ^ (k - 1) \<and> odd q) then q + 1 else q);
          t' = (if t \<le> e then e else t)
      in if 0 \<le> t' \<and> 2 ^ 128 \<le> q' * 2 ^ nat t' then Infinity (m < 0)
         else Finite (sgn m * q') t')"

definition float_of_int :: "int \<Rightarrow> float32" where
  "float_of_int i = round_f32 i 0"

fun fmul :: "float32 \<Rightarrow> float32 \<Rightarrow> float32" where
  "fmul (Finite m1 e1) (Finite m2 e2) = round_f32 (m1 * m2) (e1 + e2)"
| "fmul (Finite m e) (Infinity b) = (if m = 0 then NaN else Infinity ((m < 0) \<noteq> b))"
| "fmul (Infinity b) (Finite m e) = (if m = 0 then NaN else Infinity ((m < 0) \<noteq> b))"
| "fmul (Infinity a) (Infinity b) = Infinity (a \<noteq> b)"
| "fmul NaN _ = NaN"
| "fmul _ NaN = NaN"

text \<open>
  The conversion of a \<open>float\<close> to \<open>int\<close> drops the fraction (towards zero); the
  behaviour is undefined when the result does not fit.
\<close>

definition INT_MAX :: int where
  "INT_MAX = 2 ^ 31 - 1"

definition float_to_int :: "float32 \<Rightarrow> failure + int" where
  "float_to_int x =
     (case x of
        Finite m e \<Rightarrow>
          (let v = (if 0 \<le> e then m * 2 ^ nat e else sgn m * (\<bar>m\<bar> div 2 ^ nat (- e)))
           in if - INT_MAX - 1 \<le> v \<and> v \<le> INT_MAX then Inr v else Inl FloatToIntOutOfRange)
      | _ \<Rightarrow> Inl FloatToIntOutOfRange)"

fun valof :: "float32 \<Rightarrow> real" where
  "valof (Finite m e) = real_of_int m * 2 powr (real_of_int e)"
| "valof _ = 0"

text \<open>
  The real numbers that single precision holds exactly, among those below \<open>2^128\<close> in
  absolute value: an integer of at most 24 bits times a power of two from \<open>2^-149\<close> on.
\<close>

definition representable32 :: "real \<Rightarrow> bool" where
  "representable32 x \<longleftrightarrow>
     (\<exists>M E. \<bar>M\<bar> < 2 ^ 24 \<and> - 149 \<le> E \<and> x = real_of_int M * 2 powr real_of_int E)"

definition errorSoundDuration_s :: float32 where
  "errorSoundDuration_s = Finite 1 (- 1)"

subsection \<open>The chunk generator\<close>

text \<open>The integer types that \<open>generateSineBeep\<close> is instantiated with.\<close>

datatype sample_type = uint8_t | int8_t | uint16_t | int16_t | int32_t

fun sizeof :: "sample_type \<Rightarrow> nat" where
  "sizeof uint8_t = 1"
| "sizeof int8_t = 1"
| "sizeof uint16_t = 2"
| "sizeof int16_t = 2"
| "sizeof int32_t = 4"

text \<open>
  \<open>wave s\<close> stands for the value that the loop body stores in \<open>pcm[s]\<close> (the sine at
  sample \<open>s\<close>, scaled to the range of \<open>T\<close>); \<open>sinf\<close> is not modelled. \<open>new T[n]\<close>
  with a negative \<open>n\<close> throws; \<open>alen\<close> is a 32-bit unsigned field.
\<close>

definition generateSineBeep ::
  "header \<Rightarrow> sample_type \<Rightarrow> (nat \<Rightarrow> int) \<Rightarrow> int \<Rightarrow> float32 \<Rightarrow> sfx \<Rightarrow> failure + Mix_Chunk" where
  "generateSineBeep h T wave waveFreq_hz waveDuration_s s =
     (case float_to_int (fmul (float_of_int (samplingFreq_hz (sfxconfiguration s))) waveDuration_s) of
        Inl f \<Rightarrow> Inl f
      | Inr sampleCount \<Rightarrow>
          if sampleCount < 0 then Inl BadArrayNewLength
          else Inr \<lparr>allocated = 1,
                    abuf = map wave [0 ..< nat sampleCount],
                    alen = (nat sampleCount * sizeof T) mod 2 ^ 32,
                    volume = errorSoundVolume h\<rparr>)"

definition generateErrorSound ::
  "header \<Rightarrow> (nat \<Rightarrow> int) \<Rightarrow> SampleFormat \<Rightarrow> sfx \<Rightarrow> failure + sfx" where
  "generateErrorSound h wave format s =
     (case (case format of
              SAMPLE_FORMAT_U8 \<Rightarrow> generateSineBeep h uint8_t wave errorSoundFreq_hz errorSoundDuration_s s
            | SAMPLE_FORMAT_S8 \<Rightarrow> generateSineBeep h int8_t wave errorSoundFreq_hz errorSoundDuration_s s
            | SAMPLE_FORMAT_U16LSB \<Rightarrow> generateSineBeep h uint16_t wave errorSoundFreq_hz errorSoundDuration_s s
            | SAMPLE_FORMAT_S16LSB \<Rightarrow> generateSineBeep h int16_t wave errorSoundFreq_hz errorSoundDuration_s s
            | SAMPLE_FORMAT_S32LSB \<Rightarrow> generateSineBeep h int32_t wave errorSoundFreq_hz errorSoundDuration_s s
            | _ \<Rightarrow> Inl AssertionFailed) of
        Inl f \<Rightarrow> Inl f
      | Inr c \<Rightarrow>
          Inr (s\<lparr>errorSoundKey := nextResourceKey s,
                 nextResourceKey := nextResourceKey s + 1,
                 sounds := sounds_emplace (nextResourceKey s)
                             \<lparr>name = errorSoundName, chunk = Some c, referenceCount = 0\<rparr> (sounds s)\<rparr>))"

subsection \<open>Unloading\<close>

definition unloadSound :: "ResourceKey_t \<Rightarrow> sfx \<Rightarrow> failure + sfx" where
  "unloadSound soundKey s =
     (if soundKey = errorSoundKey s then Inl AssertionFailed
      else case sounds_find soundKey (sounds s) of
             None \<Rightarrow> Inl AssertionFailed
           | Some r \<Rightarrow> Inr (s\<lparr>sounds := sounds_erase soundKey (sounds s)\<rparr>))"

text \<open>
  \<open>std::remove_if\<close> as the standard library implements it: it looks for the first
  element to remove and then moves every later element that stays to the front, one by
  one. It returns the array and the index of the new logical end; the places from that
  index on keep whatever the moves left there.
\<close>

fun find_if :: "('a \<Rightarrow> bool) \<Rightarrow> 'a list \<Rightarrow> nat" where
  "find_if p [] = 0"
| "find_if p (x # xs) = (if p x then 0 else Suc (find_if p xs))"

function remove_if_loop :: "('a \<Rightarrow> bool) \<Rightarrow> 'a list \<Rightarrow> nat \<Rightarrow> nat \<Rightarrow> 'a list \<times> nat" where
  "remove_if_loop p a result i =
     (if i < length a
      then (if \<not> p (a ! i) then remove_if_loop p (a[result := a ! i]) (Suc result) (Suc i)
            else remove_if_loop p a result (Suc i))
      else (a, result))"
  by pat_completeness auto
termination
  by (relation "measure (\<lambda>(p, a, result, i). length a - i)") auto

declare remove_if_loop.simps [simp del]

definition remove_if :: "('a \<Rightarrow> bool) \<Rightarrow> 'a list \<Rightarrow> 'a list \<times> nat" where
  "remove_if p a =
     (let first = find_if p a
      in if first = length a then (a, first) else remove_if_loop p a first (Suc first))"

text \<open>The \<open>while\<close> loop of \<open>unloadUnusedSounds\<close>, over the places from \<open>first\<close> on.\<close>

fun unload_each :: "ResourceKey_t list \<Rightarrow> sfx \<Rightarrow> failure + sfx" where
  "unload_each [] s = Inr s"
| "unload_each (k # ks) s =
     (case unloadSound k s of Inl f \<Rightarrow> Inl f | Inr s' \<Rightarrow> unload_each ks s')"

definition unloadUnusedSounds :: "sfx \<Rightarrow> failure + sfx" where
  "unloadUnusedSounds s =
     (let (a, first) = remove_if (\<lambda>key. key \<notin> set (channelPlayback s)) (unloadQueue s)
      in case unload_each (drop first a) s of
           Inl f \<Rightarrow> Inl f
         | Inr s' \<Rightarrow> Inr (s'\<lparr>unloadQueue := take first a\<rparr>))"

definition service :: "float32 \<Rightarrow> sfx \<Rightarrow> failure + sfx" where
  "service dt s = unloadUnusedSounds s"

subsection \<open>Loading\<close>

definition returnErrorSound :: "sfx \<Rightarrow> failure + ResourceKey_t \<times> sfx" where
  "returnErrorSound s =
     (case sounds_find (errorSoundKey s) (sounds s) of
        None \<Rightarrow> Inl AssertionFailed
      | Some r \<Rightarrow>
          Inr (errorSoundKey s,
               log_line INFO msg_sfx_error_sound_usage (to_string (sint (referenceCount r + 1)))
                 (s\<lparr>sounds := increment_reference (errorSoundKey s) (sounds s)\<rparr>)))"

text \<open>
  The range-for of \<open>loadSoundWAV\<close>: the first entry of that name gets its count
  incremented; the result is its key, the new count and the map.
\<close>

fun load_loop ::
  "ResourceName_t \<Rightarrow> (ResourceKey_t \<times> SoundResource) list
     \<Rightarrow> (ResourceKey_t \<times> c_int \<times> (ResourceKey_t \<times> SoundResource) list) option" where
  "load_loop soundName [] = None"
| "load_loop soundName ((k, r) # ps) =
     (if name r = soundName
      then Some (k, referenceCount r + 1, (k, r\<lparr>referenceCount := referenceCount r + 1\<rparr>) # ps)
      else (case load_loop soundName ps of
              None \<Rightarrow> None
            | Some (k', c, ps') \<Rightarrow> Some (k', c, (k, r) # ps')))"

definition loadSoundWAV ::
  "header \<Rightarrow> (string \<Rightarrow> Mix_Chunk option) \<Rightarrow> ResourceName_t \<Rightarrow> sfx \<Rightarrow> failure + ResourceKey_t \<times> sfx" where
  "loadSoundWAV h Mix_LoadWAV soundName s0 =
     (let s = log_line INFO msg_sfx_loading_sound soundName s0
      in case load_loop soundName (sounds s) of
           Some (k, c, ps) \<Rightarrow>
             Inr (k, log_line INFO msg_sfx_sound_already_loaded
                       (''reference count='' @ to_string (sint c))
                       (s\<lparr>sounds := ps\<rparr>))
         | None \<Rightarrow>
             (let wavpath = RESOURCE_PATH_SOUNDS h @ soundName @ FILE_EXTENSION h
              in case Mix_LoadWAV wavpath of
                   None \<Rightarrow>
                     returnErrorSound
                       (log_line INFO msg_sfx_using_error_sound wavpath
                         (log_line ERROR msg_sfx_fail_load_sound wavpath s))
                 | Some c \<Rightarrow>
                     (let newKey = nextResourceKey s
                      in Inr (newKey,
                           log_line INFO msg_sfx_load_sound_success
                             (''[name:key]=['' @ soundName @ '':'' @ to_string newKey @ '']'')
                             (s\<lparr>nextResourceKey := nextResourceKey s + 1,
                                sounds := sounds_emplace newKey
                                  \<lparr>name = soundName, chunk = Some c, referenceCount = 1\<rparr>
                                  (sounds s)\<rparr>)))))"

definition queueUnloadSound :: "ResourceKey_t \<Rightarrow> sfx \<Rightarrow> failure + sfx" where
  "queueUnloadSound soundKey s =
     (if soundKey = errorSoundKey s then Inl AssertionFailed
      else case sounds_find soundKey (sounds s) of
             None \<Rightarrow> Inr (log_line WARN msg_sfx_unloading_nonexistent_sound (to_string soundKey) s)
           | Some r \<Rightarrow>
               if soundKey \<in> set (unloadQueue s)
               then Inr (log_line WARN msg_sfx_already_unloading_sound (to_string soundKey) s)
               else Inr (s\<lparr>unloadQueue := unloadQueue s @ [soundKey]\<rparr>))"

subsection \<open>Playback\<close>

definition findChunk :: "ResourceKey_t \<Rightarrow> sfx \<Rightarrow> Mix_Chunk option \<times> sfx" where
  "findChunk soundKey s =
     (case sounds_find soundKey (sounds s) of
        None \<Rightarrow> (None, log_line WARN msg_sfx_playing_nonexistent_sound (to_string soundKey) s)
      | Some r \<Rightarrow> (chunk r, s))"

definition onPlayError :: "header \<Rightarrow> string \<Rightarrow> ResourceKey_t \<Rightarrow> sfx \<Rightarrow> SoundChannel_t \<times> sfx" where
  "onPlayError h Mix_GetError soundKey s =
     (NULL_CHANNEL h,
      log_line WARN msg_sfx_fail_play_sound (to_string soundKey @ '' : '' @ Mix_GetError) s)"

text \<open>
  The four play functions end with the same three lines: the assertion that the channel
  the backend gave is idle, the assignment and the return.
\<close>

definition occupy :: "SoundChannel_t \<Rightarrow> ResourceKey_t \<Rightarrow> sfx \<Rightarrow> failure + SoundChannel_t \<times> sfx" where
  "occupy channel soundKey s =
     (if \<not> (0 \<le> channel \<and> nat channel < length (channelPlayback s)) then Inl OutOfRange
      else if channelPlayback s ! nat channel \<noteq> nullResourceKey then Inl AssertionFailed
      else Inr (channel, s\<lparr>channelPlayback := (channelPlayback s)[nat channel := soundKey]\<rparr>))"

definition playSound ::
  "header \<Rightarrow> (int \<Rightarrow> Mix_Chunk \<Rightarrow> int \<Rightarrow> int) \<Rightarrow> string \<Rightarrow> ResourceKey_t \<Rightarrow> int \<Rightarrow> sfx
     \<Rightarrow> failure + SoundChannel_t \<times> sfx" where
  "playSound h Mix_PlayChannel Mix_GetError soundKey loops s =
     (case findChunk soundKey s of
        (None, s') \<Rightarrow> Inr (NULL_CHANNEL h, s')
      | (Some c, s') \<Rightarrow>
          (let channel = Mix_PlayChannel (- 1) c loops
           in if channel = - 1 then Inr (onPlayError h Mix_GetError soundKey s')
              else occupy channel soundKey s'))"

definition playSoundTimed ::
  "header \<Rightarrow> (int \<Rightarrow> Mix_Chunk \<Rightarrow> int \<Rightarrow> int \<Rightarrow> int) \<Rightarrow> string \<Rightarrow> ResourceKey_t \<Rightarrow> int \<Rightarrow> int \<Rightarrow> sfx
     \<Rightarrow> failure + SoundChannel_t \<times> sfx" where
  "playSoundTimed h Mix_PlayChannelTimed Mix_GetError soundKey loops playDuration_ms s =
     (case findChunk soundKey s of
        (None, s') \<Rightarrow> Inr (NULL_CHANNEL h, s')
      | (Some c, s') \<Rightarrow>
          (let channel = Mix_PlayChannelTimed (- 1) c loops playDuration_ms
           in if channel = - 1 then Inr (onPlayError h Mix_GetError soundKey s')
              else occupy channel soundKey s'))"

definition playSoundFadeIn ::
  "header \<Rightarrow> (int \<Rightarrow> Mix_Chunk \<Rightarrow> int \<Rightarrow> int \<Rightarrow> int) \<Rightarrow> string \<Rightarrow> ResourceKey_t \<Rightarrow> int \<Rightarrow> int \<Rightarrow> sfx
     \<Rightarrow> failure + SoundChannel_t \<times> sfx" where
  "playSoundFadeIn h Mix_FadeInChannel Mix_GetError soundKey loops fadeDuration_ms s =
     (case findChunk soundKey s of
        (None, s') \<Rightarrow> Inr (NULL_CHANNEL h, s')
      | (Some c, s') \<Rightarrow>
          (let channel = Mix_FadeInChannel (- 1) c loops fadeDuration_ms
           in if channel = - 1 then Inr (onPlayError h Mix_GetError soundKey s')
              else occupy channel soundKey s'))"

definition playSoundFadeInTimed ::
  "header \<Rightarrow> (int \<Rightarrow> Mix_Chunk \<Rightarrow> int \<Rightarrow> int \<Rightarrow> int \<Rightarrow> int) \<Rightarrow> string \<Rightarrow> ResourceKey_t \<Rightarrow> int \<Rightarrow> int \<Rightarrow> int
     \<Rightarrow> sfx \<Rightarrow> failure + SoundChannel_t \<times> sfx" where
  "playSoundFadeInTimed h Mix_FadeInChannelTimed Mix_GetError soundKey loops fadeDuration_ms playDuration_ms s =
     (case findChunk soundKey s of
        (None, s') \<Rightarrow> Inr (NULL_CHANNEL h, s')
      | (Some c, s') \<Rightarrow>
          (let channel = Mix_FadeInChannelTimed (- 1) c loops fadeDuration_ms playDuration_ms
           in if channel = - 1 then Inr (onPlayError h Mix_GetError soundKey s')
              else occupy channel soundKey s'))"

subsection \<open>Channel volume\<close>

text \<open>
  \<open>Mix_Volume(channel, volume)\<close> of the SDL mixer: it sets the volume of the channel,
  at most \<open>MIX_MAX_VOLUME\<close>, unless \<open>volume\<close> is negative, and returns the volume the
  channel had before the call; for channel \<open>-1\<close> it does so on every channel and returns
  the average of what they had.
\<close>

definition MIX_MAX_VOLUME :: int where
  "MIX_MAX_VOLUME = 128"

definition Mix_Volume :: "int \<Rightarrow> int \<Rightarrow> int list \<Rightarrow> int \<times> int list" where
  "Mix_Volume which vol mix =
     (if which = - 1
      then (if mix = [] then 0 else sum_list mix div int (length mix),
            if 0 \<le> vol then map (\<lambda>_. min vol MIX_MAX_VOLUME) mix else mix)
      else if 0 \<le> which \<and> nat which < length mix
      then (mix ! nat which,
            if 0 \<le> vol then mix[nat which := min vol MIX_MAX_VOLUME] else mix)
      else (0, mix))"

text \<open>\<open>std::clamp(v, lo, hi)\<close>.\<close>

definition clamp :: "int \<Rightarrow> int \<Rightarrow> int \<Rightarrow> int" where
  "clamp v lo hi = (if v < lo then lo else if hi < v then hi else v)"

definition setChannelVolume :: "header \<Rightarrow> SoundChannel_t \<Rightarrow> int \<Rightarrow> sfx \<Rightarrow> failure + sfx" where
  "setChannelVolume h channel vol0 s =
     (if channel = NULL_CHANNEL h then Inr s
      else if \<not> (ALL_CHANNELS h \<le> channel \<and> channel \<le> numMixChannels (sfxconfiguration s) - 1)
      then Inl AssertionFailed
      else (let vol = clamp vol0 (MIN_VOLUME h) (MAX_VOLUME h);
                (previous, mix) = Mix_Volume channel vol (mix_channel_volume s)
            in if \<not> (0 \<le> channel \<and> nat channel < length (channelVolume s)) then Inl OutOfRange
               else Inr (s\<lparr>channelVolume := (channelVolume s)[nat channel := previous],
                           mix_channel_volume := mix\<rparr>)))"

definition getChannelVolume :: "header \<Rightarrow> SoundChannel_t \<Rightarrow> sfx \<Rightarrow> failure + int" where
  "getChannelVolume h channel s =
     (if channel = NULL_CHANNEL h then Inr 0
      else if \<not> (ALL_CHANNELS h \<le> channel \<and> channel \<le> numMixChannels (sfxconfiguration s) - 1)
      then Inl AssertionFailed
      else if \<not> (0 \<le> channel \<and> nat channel < length (channelVolume s)) then Inl OutOfRange
      else Inr (channelVolume s ! nat channel))"

subsection \<open>Initialization\<close>

text \<open>What the backend answers while \<open>initialize\<close> runs.\<close>

record mixer_answers =
  Mix_OpenAudio :: int
  Mix_GetError :: string
  Mix_Linked_Version :: "int \<times> int \<times> int"
  Mix_QuerySpec :: "(int \<times> SampleFormat \<times> int) option"

definition logSpec :: "header \<Rightarrow> mixer_answers \<Rightarrow> sfx \<Rightarrow> sfx" where
  "logSpec h b s0 =
     (let (major, minor, patch) = Mix_Linked_Version b;
          s = log_line INFO (Literal ''patch:'') (to_string patch)
                (log_line INFO (Literal ''minor:'') (to_string minor)
                  (log_line INFO (Literal ''major:'') (to_string major)
                    (log_line INFO (Literal ''SDL_Mixer Version:'') [] s0)))
      in case Mix_QuerySpec b of
           None \<Rightarrow> log_line WARN msg_sfx_fail_query_spec (Mix_GetError b) s
         | Some (freq, format, channels) \<Rightarrow>
             (let formatString =
                    (case format of
                       SAMPLE_FORMAT_U8 \<Rightarrow> ''U8''
                     | SAMPLE_FORMAT_S8 \<Rightarrow> ''S8''
                     | SAMPLE_FORMAT_U16LSB \<Rightarrow> ''U16LSB''
                     | SAMPLE_FORMAT_S16LSB \<Rightarrow> ''S16LSB''
                     | SAMPLE_FORMAT_S32LSB \<Rightarrow> ''S32LSB''
                     | _ \<Rightarrow> ''unknown format'');
                  modeString =
                    (if channels = MONO h then ''mono''
                     else if channels = STEREO h then ''stereo''
                     else ''unknown mode'')
              in log_line INFO (Literal ''output mode: '') modeString
                   (log_line INFO (Literal ''sample format: '') formatString
                     (log_line INFO (Literal ''sample frequency: '') (to_string freq)
                       (log_line INFO (Literal ''SDL_Mixer Audio Device Spec: '') [] s)))))"

text \<open>
  \<open>std::vector::resize(n, v)\<close>; a negative \<open>n\<close> becomes a size beyond \<open>max_size\<close>.
  \<open>Mix_OpenAudio\<close> and \<open>Mix_AllocateChannels\<close> leave every channel of the mixer at
  \<open>MIX_MAX_VOLUME\<close>.
\<close>

definition resize :: "int \<Rightarrow> 'a \<Rightarrow> 'a list \<Rightarrow> failure + 'a list" where
  "resize n v xs =
     (if n < 0 then Inl LengthError
      else Inr (take (nat n) xs @ replicate (nat n - length xs) v))"

definition initialize ::
  "header \<Rightarrow> mixer_answers \<Rightarrow> (nat \<Rightarrow> int) \<Rightarrow> SFXConfiguration \<Rightarrow> sfx \<Rightarrow> failure + bool \<times> sfx" where
  "initialize h b wave sfxconf s0 =
     (if sampleFormat sfxconf = SAMPLE_FORMAT_FLOAT then Inl AssertionFailed
      else
        (let s = (log_line INFO msg_sfx_initializing [] s0)\<lparr>sfxconfiguration := sfxconf\<rparr>
         in if Mix_OpenAudio b \<noteq> 0
            then Inr (False, log_line ERROR msg_sfx_fail_open_audio (Mix_GetError b) s)
            else
              (case resize (numMixChannels sfxconf) nullResourceKey (channelPlayback s) of
                 Inl f \<Rightarrow> Inl f
               | Inr playback \<Rightarrow>
                   (case resize (numMixChannels sfxconf) (MAX_VOLUME h) (channelVolume s) of
                      Inl f \<Rightarrow> Inl f
                    | Inr volumes \<Rightarrow>
                        (case generateErrorSound h wave (sampleFormat sfxconf)
                                (s\<lparr>channelPlayback := playback, channelVolume := volumes,
                                   mix_channel_volume :=
                                     replicate (nat (numMixChannels sfxconf)) MIX_MAX_VOLUME\<rparr>) of
                           Inl f \<Rightarrow> Inl f
                         | Inr s' \<Rightarrow> Inr (True, logSpec h b s'))))))"

subsection \<open>Calls in sequence\<close>

definition and_then :: "failure + 'a \<Rightarrow> ('a \<Rightarrow> failure + 'b) \<Rightarrow> failure + 'b" where
  "and_then r f = (case r of Inl e \<Rightarrow> Inl e | Inr x \<Rightarrow> f x)"

text \<open>\<open>setChannelVolume(channel, vol)\<close> followed by \<open>getChannelVolume(channel)\<close>.\<close>

definition set_then_get :: "header \<Rightarrow> SoundChannel_t \<Rightarrow> int \<Rightarrow> sfx \<Rightarrow> failure + int" where
  "set_then_get h channel vol s =
     and_then (setChannelVolume h channel vol s) (getChannelVolume h channel)"

definition forget_log :: "sfx \<Rightarrow> sfx" where
  "forget_log s = s\<lparr>logged := []\<rparr>"

text \<open>
  A call is a logged no-op when it returns, leaves every variable of the module as it
  was and adds at least one line to the log.
\<close>

definition logged_no_op :: "sfx \<Rightarrow> failure + sfx \<Rightarrow> bool" where
  "logged_no_op s r =
     (case r of
        Inl f \<Rightarrow> False
      | Inr s' \<Rightarrow> forget_log s' = forget_log s \<and> length (logged s) < length (logged s')
                  \<and> take (length (logged s)) (logged s') = logged s)"

subsection \<open>A small run of the module\<close>

text \<open>
  Values for the constants of the headers (the sentinels below the channel range, the
  volume range of the mixer), a configuration with two channels, a backend that opens,
  two sound files that decode and a backend that plays on channel 0.
\<close>

definition example_header :: header where
  "example_header =
     \<lparr>NULL_CHANNEL = - 2, ALL_CHANNELS = - 1, MIN_VOLUME = 0, MAX_VOLUME = 128,
      RESOURCE_PATH_SOUNDS = ''assets/sounds/'', FILE_EXTENSION = ''.wav'',
      MONO = 1, STEREO = 2\<rparr>"

definition example_configuration :: SFXConfiguration where
  "example_configuration =
     \<lparr>samplingFreq_hz = 11025, sampleFormat = SAMPLE_FORMAT_U8, outputMode = 1,
      numMixChannels = 2, chunkSize = 1024\<rparr>"

definition example_answers :: mixer_answers where
  "example_answers =
     \<lparr>Mix_OpenAudio = 0, Mix_GetError = [], Mix_Linked_Version = (2, 0, 4),
      Mix_QuerySpec = Some (11025, SAMPLE_FORMAT_U8, 1)\<rparr>"

definition silence :: "nat \<Rightarrow> int" where
  "silence s = 0"

definition clip :: Mix_Chunk where
  "clip = \<lparr>allocated = 1, abuf = [0, 1, 0], alen = 3, volume = 128\<rparr>"

definition example_files :: "string \<Rightarrow> Mix_Chunk option" where
  "example_files path =
     (if path = ''assets/sounds/explosion.wav'' \<or> path = ''assets/sounds/pickup.wav''
      then Some clip else None)"

definition channel_0 :: "int \<Rightarrow> Mix_Chunk \<Rightarrow> int \<Rightarrow> int" where
  "channel_0 which c loops = 0"

definition beep :: Mix_Chunk where
  "beep = \<lparr>allocated = 1, abuf = map silence [0 ..< 5512], alen = 5512, volume = 128\<rparr>"

text \<open>The module after \<open>initialize\<close>, and what \<open>initialize\<close> logged.\<close>

definition initialize_log :: "log_line list" where
  "initialize_log =
     [(INFO, msg_sfx_initializing, []),
      (INFO, Literal ''SDL_Mixer Version:'', []),
      (INFO, Literal ''major:'', to_string 2),
      (INFO, Literal ''minor:'', to_string 0),
      (INFO, Literal ''patch:'', to_string 4),
      (INFO, Literal ''SDL_Mixer Audio Device Spec: '', []),
      (INFO, Literal ''sample frequency: '', to_string 11025),
      (INFO, Literal ''sample format: '', ''U8''),
      (INFO, Literal ''output mode: '', ''mono'')]"

definition fresh :: sfx where
  "fresh =
     \<lparr>errorSoundKey = 0, nextResourceKey = 1,
      sounds = [(0, \<lparr>name = ''sfxerror'', chunk = Some beep, referenceCount = 0\<rparr>)],
      sfxconfiguration = example_configuration,
      channelPlayback = [- 1, - 1], channelVolume = [128, 128], unloadQueue = [],
      mix_channel_volume = [128, 128], logged = initialize_log\<rparr>"

text \<open>
  The module after two sounds were loaded, the second was started on channel 0 and both
  were queued for unloading; then after the next \<open>service\<close>.
\<close>

definition unload_while_playing :: "failure + sfx" where
  "unload_while_playing =
     and_then (initialize example_header example_answers silence example_configuration
                 (module_data example_configuration)) (\<lambda>(ok, s).
     and_then (loadSoundWAV example_header example_files ''explosion'' s) (\<lambda>(explosion, s).
     and_then (loadSoundWAV example_header example_files ''pickup'' s) (\<lambda>(pickup, s).
     and_then (playSound example_header channel_0 [] pickup 0 s) (\<lambda>(channel, s).
     and_then (queueUnloadSound explosion s) (queueUnloadSound pickup)))))"

definition loaded :: sfx where
  "loaded =
     \<lparr>errorSoundKey = 0, nextResourceKey = 3,
      sounds = [(0, \<lparr>name = ''sfxerror'', chunk = Some beep, referenceCount = 0\<rparr>),
                (1, \<lparr>name = ''explosion'', chunk = Some clip, referenceCount = 1\<rparr>),
                (2, \<lparr>name = ''pickup'', chunk = Some clip, referenceCount = 1\<rparr>)],
      sfxconfiguration = example_configuration,
      channelPlayback = [- 1, - 1], channelVolume = [128, 128], unloadQueue = [],
      mix_channel_volume = [128, 128],
      logged = initialize_log @
        [(INFO, msg_sfx_loading_sound, ''explosion''),
         (INFO, msg_sfx_load_sound_success, ''[name:key]=['' @ ''explosion'' @ '':'' @ to_string 1 @ '']''),
         (INFO, msg_sfx_loading_sound, ''pickup''),
         (INFO, msg_sfx_load_sound_success, ''[name:key]=['' @ ''pickup'' @ '':'' @ to_string 2 @ '']'')]\<rparr>"

definition busy :: sfx where
  "busy = loaded\<lparr>channelPlayback := [2, - 1], unloadQueue := [1, 2]\<rparr>"

definition after_service :: sfx where
  "after_service =
     busy\<lparr>sounds := [(0, \<lparr>name = ''sfxerror'', chunk = Some beep, referenceCount = 0\<rparr>),
                      (1, \<lparr>name = ''explosion'', chunk = Some clip, referenceCount = 1\<rparr>)],
          unloadQueue := [2]\<rparr>"

text \<open>
  The same module when the error sound and the explosion have been loaded until their
  reference counts stand at \<open>INT_MAX\<close>.
\<close>

definition worn :: sfx where
  "worn =
     loaded\<lparr>sounds :=
       [(0, \<lparr>name = ''sfxerror'', chunk = Some beep, referenceCount = 2147483647\<rparr>),
        (1, \<lparr>name = ''explosion'', chunk = Some clip, referenceCount = 2147483647\<rparr>),
        (2, \<lparr>name = ''pickup'', chunk = Some clip, referenceCount = 1\<rparr>)]\<rparr>"

text \<open>The module initialized for 48000 Hz.\<close>

definition studio :: sfx where
  "studio = fresh\<lparr>sfxconfiguration := example_configuration\<lparr>samplingFreq_hz := 48000\<rparr>\<rparr>"

subsection \<open>The states of a run\<close>

text \<open>
  A run of the module starts with a successful \<open>initialize\<close> on the module data as the
  program starts with them, and goes on with calls that return and with completion
  notifications of the backend. The stop, pause and resume functions change no variable
  of the module and are left out.
\<close>

inductive reachable :: "header \<Rightarrow> sfx \<Rightarrow> bool" for h :: header where
  after_initialize:
    "initialize h b wave sfxconf (module_data c) = Inr (True, s) \<Longrightarrow> reachable h s"
| after_loadSoundWAV:
    "reachable h s \<Longrightarrow> loadSoundWAV h Mix_LoadWAV soundName s = Inr (k, s') \<Longrightarrow> reachable h s'"
| after_queueUnloadSound:
    "reachable h s \<Longrightarrow> queueUnloadSound soundKey s = Inr s' \<Longrightarrow> reachable h s'"
| after_service:
    "reachable h s \<Longrightarrow> service dt s = Inr s' \<Longrightarrow> reachable h s'"
| after_playSound:
    "reachable h s \<Longrightarrow> playSound h Mix_PlayChannel err soundKey loops s = Inr (channel, s')
     \<Longrightarrow> reachable h s'"
| after_playSoundTimed:
    "reachable h s
     \<Longrightarrow> playSoundTimed h Mix_PlayChannelTimed err soundKey loops playDuration_ms s = Inr (channel, s')
     \<Longrightarrow> reachable h s'"
| after_playSoundFadeIn:
    "reachable h s
     \<Longrightarrow> playSoundFadeIn h Mix_FadeInChannel err soundKey loops fadeDuration_ms s = Inr (channel, s')
     \<Longrightarrow> reachable h s'"
| after_playSoundFadeInTimed:
    "reachable h s
     \<Longrightarrow> playSoundFadeInTimed h Mix_FadeInChannelTimed err soundKey loops fadeDuration_ms
           playDuration_ms s = Inr (channel, s')
     \<Longrightarrow> reachable h s'"
| after_onChannelFinished:
    "reachable h s \<Longrightarrow> onChannelFinished channel s = Inr s' \<Longrightarrow> reachable h s'"
| after_setChannelVolume:
    "reachable h s \<Longrightarrow> setChannelVolume h channel vol s = Inr s' \<Longrightarrow> reachable h s'"

text \<open>
  What holds of the resource table and the unload queue throughout a run: keys and names
  in the table are distinct, the error sound is in the table under its name, every key is
  below \<open>nextResourceKey\<close>, and the queue holds no key twice and never the key of the
  error sound.
\<close>

definition invariant :: "sfx \<Rightarrow> bool" where
  "invariant s \<longleftrightarrow>
     distinct (map fst (sounds s))
     \<and> distinct (map (name \<circ> snd) (sounds s))
     \<and> (case sounds_find (errorSoundKey s) (sounds s) of
          None \<Rightarrow> False
        | Some r \<Rightarrow> name r = errorSoundName)
     \<and> (\<forall>k \<in> set (map fst (sounds s)). k < nextResourceKey s)
     \<and> distinct (unloadQueue s)
     \<and> errorSoundKey s \<notin> set (unloadQueue s)"

section \<open>Properties\<close>

subsection \<open>The resource table\<close>

lemma map_of_increment_reference:
  "map_of ps k = Some r \<Longrightarrow>
   map_of (increment_reference k ps) = (map_of ps)(k \<mapsto> r\<lparr>referenceCount := referenceCount r + 1\<rparr>)"
  by (induction ps) (auto simp: fun_eq_iff)

lemma keys_increment_reference: "map fst (increment_reference k ps) = map fst ps"
  by (induction ps) auto

lemma names_increment_reference:
  "map (name \<circ> snd) (increment_reference k ps) = map (name \<circ> snd) ps"
  by (induction ps) auto

lemma load_loop_None:
  "soundName \<notin> set (map (name \<circ> snd) ps) \<Longrightarrow> load_loop soundName ps = None"
  by (induction ps) auto

lemma load_loop_found:
  "distinct (map (name \<circ> snd) ps) \<Longrightarrow> map_of ps k = Some r \<Longrightarrow> name r = soundName \<Longrightarrow>
   load_loop soundName ps = Some (k, referenceCount r + 1, increment_reference k ps)"
proof (induction ps)
  case Nil
  then show ?case by simp
next
  case (Cons p ps)
  obtain k' r' where p: "p = (k', r')" by (cases p)
  show ?case
  proof (cases "k' = k")
    case True
    with Cons.prems p show ?thesis by simp
  next
    case False
    with Cons.prems p have in_tail: "map_of ps k = Some r" by simp
    then have "(k, r) \<in> set ps" by (rule map_of_SomeD)
    then have "name r \<in> set (map (name \<circ> snd) ps)" by force
    moreover from Cons.prems p have "name r' \<notin> set (map (name \<circ> snd) ps)" by simp
    ultimately have "name r' \<noteq> soundName" using Cons.prems(3) by metis
    with Cons.IH Cons.prems p in_tail False show ?thesis by simp
  qed
qed

subsection \<open>What \<open>remove_if\<close> keeps\<close>

text \<open>
  The front part of the array that \<open>remove_if\<close> returns holds the elements that stay,
  in their order. What lies behind it is not the elements that were removed.
\<close>

lemma find_if_le: "find_if p a \<le> length a"
  by (induction a) auto

lemma find_if_take: "filter (\<lambda>x. \<not> p x) (take (find_if p a) a) = take (find_if p a) a"
  by (induction a) auto

lemma find_if_hit: "find_if p a < length a \<Longrightarrow> p (a ! find_if p a)"
  by (induction a) auto

lemma remove_if_loop_kept:
  "result \<le> i \<Longrightarrow> i \<le> length a \<Longrightarrow> remove_if_loop p a result i = (a', first) \<Longrightarrow>
   take first a' = take result a @ filter (\<lambda>x. \<not> p x) (drop i a) \<and> length a' = length a"
proof (induction p a result i arbitrary: a' first rule: remove_if_loop.induct)
  case (1 p a result i)
  show ?case
  proof (cases "i < length a")
    case False
    with "1.prems" show ?thesis by (simp add: remove_if_loop.simps)
  next
    case True
    note inside = this
    show ?thesis
    proof (cases "p (a ! i)")
      case True
      with inside "1.prems" have "remove_if_loop p a result (Suc i) = (a', first)"
        by (simp add: remove_if_loop.simps)
      with "1.IH"(2) [OF inside _ _ _ this] True inside "1.prems"
      have "take first a' = take result a @ filter (\<lambda>x. \<not> p x) (drop (Suc i) a) \<and> length a' = length a"
        by simp
      moreover from inside True have "filter (\<lambda>x. \<not> p x) (drop i a) = filter (\<lambda>x. \<not> p x) (drop (Suc i) a)"
        by (simp add: Cons_nth_drop_Suc [symmetric])
      ultimately show ?thesis by simp
    next
      case False
      with inside "1.prems" have call: "remove_if_loop p (a[result := a ! i]) (Suc result) (Suc i) = (a', first)"
        by (simp add: remove_if_loop.simps)
      from "1.IH"(1) [OF inside False _ _ call] inside "1.prems"
      have "take first a' = take (Suc result) (a[result := a ! i])
              @ filter (\<lambda>x. \<not> p x) (drop (Suc i) (a[result := a ! i]))
            \<and> length a' = length a"
        by simp
      moreover from inside "1.prems" have "take (Suc result) (a[result := a ! i]) = take result a @ [a ! i]"
        by (simp add: take_Suc_conv_app_nth)
      moreover from "1.prems" have "drop (Suc i) (a[result := a ! i]) = drop (Suc i) a"
        by simp
      moreover from inside False have "filter (\<lambda>x. \<not> p x) (drop i a) = a ! i # filter (\<lambda>x. \<not> p x) (drop (Suc i) a)"
        by (simp add: Cons_nth_drop_Suc [symmetric])
      ultimately show ?thesis by simp
    qed
  qed
qed

lemma remove_if_kept:
  assumes "remove_if p a = (a', first)"
  shows "take first a' = filter (\<lambda>x. \<not> p x) a"
proof (cases "find_if p a = length a")
  case True
  with assms have "a' = a" "first = length a" by (auto simp add: remove_if_def Let_def)
  with True find_if_take [of p a] show ?thesis by simp
next
  case False
  with find_if_le [of p a] have less: "find_if p a < length a" by simp
  from False assms have "remove_if_loop p a (find_if p a) (Suc (find_if p a)) = (a', first)"
    by (simp add: remove_if_def Let_def)
  with less have "take first a' = take (find_if p a) a @ filter (\<lambda>x. \<not> p x) (drop (Suc (find_if p a)) a)"
    using remove_if_loop_kept [of "find_if p a" "Suc (find_if p a)" a p a' first] by simp
  moreover have "a = take (find_if p a) a @ a ! find_if p a # drop (Suc (find_if p a)) a"
    using less by (simp add: id_take_nth_drop [symmetric])
  then have "filter (\<lambda>x. \<not> p x) a =
      filter (\<lambda>x. \<not> p x) (take (find_if p a) a) @ filter (\<lambda>x. \<not> p x) (a ! find_if p a # drop (Suc (find_if p a)) a)"
    by (metis filter_append)
  ultimately show ?thesis
    using find_if_hit [OF less] by (simp add: find_if_take)
qed


subsection \<open>Invariants of a run\<close>

text \<open>
  Each function keeps the invariant, so it holds in every state of a run. The unload
  queue after \<open>service\<close> is the queue before it without the keys that no channel
  plays (\<open>service_fields\<close>).
\<close>

lemma invariant_same_table:
  "invariant s \<Longrightarrow> sounds s' = sounds s \<Longrightarrow> errorSoundKey s' = errorSoundKey s \<Longrightarrow>
   nextResourceKey s' = nextResourceKey s \<Longrightarrow> unloadQueue s' = unloadQueue s \<Longrightarrow> invariant s'"
  by (simp add: invariant_def)

lemma logSpec_fields:
  "sounds (logSpec h b s) = sounds s" "errorSoundKey (logSpec h b s) = errorSoundKey s"
  "nextResourceKey (logSpec h b s) = nextResourceKey s" "unloadQueue (logSpec h b s) = unloadQueue s"
  by (simp_all add: logSpec_def log_line_def Let_def split: prod.splits option.splits)

lemma generateErrorSound_fields:
  assumes "generateErrorSound h wave format s = Inr s'"
  shows "\<exists>c. sounds s' = sounds_emplace (nextResourceKey s)
                 \<lparr>name = errorSoundName, chunk = Some c, referenceCount = 0\<rparr> (sounds s)"
    and "errorSoundKey s' = nextResourceKey s"
    and "nextResourceKey s' = nextResourceKey s + 1"
    and "unloadQueue s' = unloadQueue s"
  using assms by (auto simp: generateErrorSound_def split: sum.splits)

lemma invariant_initialize:
  assumes "initialize h b wave sfxconf (module_data c) = Inr (True, s)"
  shows "invariant s"
proof -
  from assms obtain s1 s2 where gen: "generateErrorSound h wave (sampleFormat sfxconf) s1 = Inr s2"
    and s1: "sounds s1 = []" "nextResourceKey s1 = 0" "unloadQueue s1 = []"
    and s: "s = logSpec h b s2"
    by (auto simp: initialize_def Let_def module_data_def log_line_def
        split: if_splits sum.splits)
  from generateErrorSound_fields [OF gen] s1 obtain ch where
    "sounds s2 = [(0, \<lparr>name = errorSoundName, chunk = Some ch, referenceCount = 0\<rparr>)]"
    "errorSoundKey s2 = 0" "nextResourceKey s2 = 1" "unloadQueue s2 = []"
    by (auto simp: sounds_emplace_def)
  then show ?thesis
    by (simp add: s invariant_def logSpec_fields sounds_find_def)
qed

lemma map_of_name_increment_reference:
  "map_option name (map_of (increment_reference k ps) k') = map_option name (map_of ps k')"
  by (induction ps) auto

lemma load_loop_Some:
  "load_loop soundName ps = Some (k, c, ps') \<Longrightarrow>
   map fst ps' = map fst ps \<and> map (name \<circ> snd) ps' = map (name \<circ> snd) ps
   \<and> map_option name (map_of ps' k') = map_option name (map_of ps k')"
  by (induction ps arbitrary: ps') (auto split: if_splits option.splits)

lemma load_loop_None_names:
  "load_loop soundName ps = None \<Longrightarrow> soundName \<notin> set (map (name \<circ> snd) ps)"
proof (induction ps)
  case Nil
  then show ?case by simp
next
  case (Cons p ps)
  obtain k r where p: "p = (k, r)" by (cases p)
  from Cons.prems p have "name r \<noteq> soundName" and "load_loop soundName ps = None"
    by (simp_all split: if_splits option.splits prod.splits)
  with Cons.IH p show ?case by simp
qed

lemma error_entry_by_name:
  assumes "case map_of ps k of None \<Rightarrow> False | Some r \<Rightarrow> name r = n"
      and "map_option name (map_of ps' k) = map_option name (map_of ps k)"
  shows "case map_of ps' k of None \<Rightarrow> False | Some r \<Rightarrow> name r = n"
  using assms by (cases "map_of ps k"; cases "map_of ps' k") auto

lemma invariantD:
  assumes "invariant s"
  shows "distinct (map fst (sounds s))" and "distinct (map (name \<circ> snd) (sounds s))"
    and "case map_of (sounds s) (errorSoundKey s) of None \<Rightarrow> False | Some r \<Rightarrow> name r = errorSoundName"
    and "\<And>k. k \<in> set (map fst (sounds s)) \<Longrightarrow> k < nextResourceKey s"
    and "distinct (unloadQueue s)" and "errorSoundKey s \<notin> set (unloadQueue s)"
  using assms by (auto simp add: invariant_def sounds_find_def)

lemma invariantI:
  assumes "distinct (map fst (sounds s))" and "distinct (map (name \<circ> snd) (sounds s))"
    and "case map_of (sounds s) (errorSoundKey s) of None \<Rightarrow> False | Some r \<Rightarrow> name r = errorSoundName"
    and "\<And>k. k \<in> set (map fst (sounds s)) \<Longrightarrow> k < nextResourceKey s"
    and "distinct (unloadQueue s)" and "errorSoundKey s \<notin> set (unloadQueue s)"
  shows "invariant s"
  using assms by (simp add: invariant_def sounds_find_def)

lemma invariant_loadSoundWAV:
  assumes "invariant s" and "loadSoundWAV h Mix_LoadWAV soundName s = Inr (k, s')"
  shows "invariant s'"
proof (cases "load_loop soundName (sounds s)")
  case (Some found)
  obtain k' c ps where found: "found = (k', c, ps)" by (cases found)
  with Some assms(2) have s': "sounds s' = ps" "errorSoundKey s' = errorSoundKey s"
    "nextResourceKey s' = nextResourceKey s" "unloadQueue s' = unloadQueue s"
    by (auto simp: loadSoundWAV_def Let_def log_line_def)
  from Some found have "load_loop soundName (sounds s) = Some (k', c, ps)" by simp
  note same = load_loop_Some [OF this]
  from same [of "errorSoundKey s"]
  have names: "map_option name (map_of ps (errorSoundKey s))
                = map_option name (map_of (sounds s) (errorSoundKey s))"
    by simp
  show ?thesis
  proof (rule invariantI)
    show "case map_of (sounds s') (errorSoundKey s') of None \<Rightarrow> False | Some r \<Rightarrow> name r = errorSoundName"
      unfolding s' using invariantD(3) [OF assms(1)] names by (rule error_entry_by_name)
  qed (use invariantD [OF assms(1)] same in \<open>simp_all add: s'\<close>)
next
  case None
  note absent = load_loop_None_names [OF None]
  show ?thesis
  proof (cases "Mix_LoadWAV (RESOURCE_PATH_SOUNDS h @ soundName @ FILE_EXTENSION h)")
    case no_file: None
    from invariantD(3) [OF assms(1)] obtain r where r: "map_of (sounds s) (errorSoundKey s) = Some r"
      by (auto split: option.splits)
    with None no_file assms(2) have s': "sounds s' = increment_reference (errorSoundKey s) (sounds s)"
      "errorSoundKey s' = errorSoundKey s" "nextResourceKey s' = nextResourceKey s"
      "unloadQueue s' = unloadQueue s"
      by (auto simp: loadSoundWAV_def Let_def log_line_def returnErrorSound_def sounds_find_def)
    show ?thesis
    proof (rule invariantI)
      show "case map_of (sounds s') (errorSoundKey s') of None \<Rightarrow> False | Some r \<Rightarrow> name r = errorSoundName"
        unfolding s' using invariantD(3) [OF assms(1)]
        by (rule error_entry_by_name) (rule map_of_name_increment_reference)
    qed (use invariantD [OF assms(1)] in
          \<open>simp_all add: s' keys_increment_reference names_increment_reference\<close>)
  next
    case (Some ch)
    have not_in: "nextResourceKey s \<notin> set (map fst (sounds s))"
      using invariantD(4) [OF assms(1), of "nextResourceKey s"] by auto
    then have fresh_key: "map_of (sounds s) (nextResourceKey s) = None"
      by (simp add: map_of_eq_None_iff)
    with None Some assms(2) have s': "sounds s' = sounds s @
        [(nextResourceKey s, \<lparr>name = soundName, chunk = Some ch, referenceCount = 1\<rparr>)]"
      "errorSoundKey s' = errorSoundKey s" "nextResourceKey s' = nextResourceKey s + 1"
      "unloadQueue s' = unloadQueue s"
      by (auto simp: loadSoundWAV_def Let_def log_line_def sounds_emplace_def)
    show ?thesis
    proof (rule invariantI)
      show "distinct (map fst (sounds s'))"
        using invariantD(1) [OF assms(1)] not_in by (simp add: s')
      show "distinct (map (name \<circ> snd) (sounds s'))"
        using invariantD(2) [OF assms(1)] absent by (simp add: s')
      show "case map_of (sounds s') (errorSoundKey s') of None \<Rightarrow> False | Some r \<Rightarrow> name r = errorSoundName"
        using invariantD(3) [OF assms(1)] fresh_key
        by (auto simp add: s' map_add_def split: option.splits)
      show "k < nextResourceKey s'" if "k \<in> set (map fst (sounds s'))" for k
      proof -
        from that have "k = nextResourceKey s \<or> k \<in> set (map fst (sounds s))"
          by (auto simp: s')
        then show ?thesis
        proof
          assume "k = nextResourceKey s"
          then show ?thesis by (simp add: s')
        next
          assume "k \<in> set (map fst (sounds s))"
          then have "k < nextResourceKey s" by (rule invariantD(4) [OF assms(1)])
          then show ?thesis by (simp add: s')
        qed
      qed
    qed (use invariantD [OF assms(1)] in \<open>simp_all add: s'\<close>)
  qed
qed

lemma queueUnloadSound_fields:
  assumes "queueUnloadSound soundKey s = Inr s'"
  shows "sounds s' = sounds s" and "errorSoundKey s' = errorSoundKey s"
    and "nextResourceKey s' = nextResourceKey s"
    and "unloadQueue s' = unloadQueue s
         \<or> unloadQueue s' = unloadQueue s @ [soundKey] \<and> soundKey \<noteq> errorSoundKey s
            \<and> soundKey \<notin> set (unloadQueue s)"
  using assms
  by (auto simp: queueUnloadSound_def log_line_def split: if_splits option.splits)

lemma invariant_queueUnloadSound:
  assumes "invariant s" and "queueUnloadSound soundKey s = Inr s'"
  shows "invariant s'"
proof (rule invariantI)
  show "distinct (unloadQueue s')"
    using invariantD(5) [OF assms(1)] queueUnloadSound_fields(4) [OF assms(2)] by auto
  show "errorSoundKey s' \<notin> set (unloadQueue s')"
    using invariantD(6) [OF assms(1)] queueUnloadSound_fields(4) [OF assms(2)]
    by (auto simp: queueUnloadSound_fields(2) [OF assms(2)])
qed (use invariantD [OF assms(1)] in \<open>simp_all add: queueUnloadSound_fields(1-3) [OF assms(2)]\<close>)

lemma unload_each_fields:
  "unload_each ks s = Inr s' \<Longrightarrow>
   sounds s' = filter (\<lambda>p. fst p \<notin> set ks) (sounds s) \<and> errorSoundKey s' = errorSoundKey s
   \<and> nextResourceKey s' = nextResourceKey s \<and> unloadQueue s' = unloadQueue s
   \<and> errorSoundKey s \<notin> set ks"
proof (induction ks arbitrary: s)
  case Nil
  then show ?case by simp
next
  case (Cons k ks)
  from Cons.prems obtain s1 where first: "unloadSound k s = Inr s1" and rest: "unload_each ks s1 = Inr s'"
    by (auto split: sum.splits)
  from first have s1: "sounds s1 = filter (\<lambda>p. fst p \<noteq> k) (sounds s)" "errorSoundKey s1 = errorSoundKey s"
    "nextResourceKey s1 = nextResourceKey s" "unloadQueue s1 = unloadQueue s" "k \<noteq> errorSoundKey s"
    by (auto simp: unloadSound_def sounds_erase_def split: if_splits option.splits)
  from Cons.IH [OF rest] s1 show ?case
    by simp
qed

lemma service_fields:
  assumes "service dt s = Inr s'"
  shows "\<exists>ks. sounds s' = filter (\<lambda>p. fst p \<notin> set ks) (sounds s) \<and> errorSoundKey s \<notin> set ks"
    and "unloadQueue s' = filter (\<lambda>key. key \<in> set (channelPlayback s)) (unloadQueue s)"
    and "errorSoundKey s' = errorSoundKey s" and "nextResourceKey s' = nextResourceKey s"
proof -
  obtain a first where r: "remove_if (\<lambda>key. key \<notin> set (channelPlayback s)) (unloadQueue s) = (a, first)"
    by (cases "remove_if (\<lambda>key. key \<notin> set (channelPlayback s)) (unloadQueue s)")
  with assms obtain s1 where each: "unload_each (drop first a) s = Inr s1"
    and s': "s' = s1\<lparr>unloadQueue := take first a\<rparr>"
    by (auto simp: service_def unloadUnusedSounds_def split: sum.splits)
  from unload_each_fields [OF each] s'
  show "\<exists>ks. sounds s' = filter (\<lambda>p. fst p \<notin> set ks) (sounds s) \<and> errorSoundKey s \<notin> set ks"
    and "errorSoundKey s' = errorSoundKey s" and "nextResourceKey s' = nextResourceKey s"
    by auto
  from remove_if_kept [OF r] s'
  show "unloadQueue s' = filter (\<lambda>key. key \<in> set (channelPlayback s)) (unloadQueue s)"
    by simp
qed

lemma map_of_filter_keys:
  "k \<notin> K \<Longrightarrow> map_of (filter (\<lambda>p. fst p \<notin> K) ps) k = map_of ps k"
  by (induction ps) auto

lemma invariant_service:
  assumes "invariant s" and "service dt s = Inr s'"
  shows "invariant s'"
proof -
  from service_fields(1) [OF assms(2)] obtain ks where
    ks: "sounds s' = filter (\<lambda>p. fst p \<notin> set ks) (sounds s)" "errorSoundKey s \<notin> set ks"
    by blast
  note rest = service_fields(2-4) [OF assms(2)]
  show ?thesis
  proof (rule invariantI)
    show "distinct (map fst (sounds s'))"
      using invariantD(1) [OF assms(1)] by (simp add: ks distinct_map_filter)
    show "distinct (map (name \<circ> snd) (sounds s'))"
      using invariantD(2) [OF assms(1)] by (simp add: ks distinct_map_filter)
    show "case map_of (sounds s') (errorSoundKey s') of None \<Rightarrow> False | Some r \<Rightarrow> name r = errorSoundName"
      using invariantD(3) [OF assms(1)] ks(2) by (simp add: ks(1) rest map_of_filter_keys)
    show "k < nextResourceKey s'" if "k \<in> set (map fst (sounds s'))" for k
    proof -
      from that have "k \<in> set (map fst (sounds s))"
        by (auto simp: ks(1))
      then have "k < nextResourceKey s" by (rule invariantD(4) [OF assms(1)])
      then show ?thesis by (simp add: rest)
    qed
    show "distinct (unloadQueue s')"
      using invariantD(5) [OF assms(1)] by (simp add: rest)
    show "errorSoundKey s' \<notin> set (unloadQueue s')"
      using invariantD(6) [OF assms(1)] by (simp add: rest)
  qed
qed


lemma playSound_fields:
  assumes "playSound h Mix_PlayChannel err soundKey loops s = Inr (channel, s')"
  shows "sounds s' = sounds s \<and> errorSoundKey s' = errorSoundKey s
         \<and> nextResourceKey s' = nextResourceKey s \<and> unloadQueue s' = unloadQueue s"
  using assms
  by (auto simp: playSound_def findChunk_def onPlayError_def occupy_def log_line_def Let_def
      split: option.splits if_splits)

lemma playSoundTimed_fields:
  assumes "playSoundTimed h Mix_PlayChannelTimed err soundKey loops playDuration_ms s = Inr (channel, s')"
  shows "sounds s' = sounds s \<and> errorSoundKey s' = errorSoundKey s
         \<and> nextResourceKey s' = nextResourceKey s \<and> unloadQueue s' = unloadQueue s"
  using assms
  by (auto simp: playSoundTimed_def findChunk_def onPlayError_def occupy_def log_line_def Let_def
      split: option.splits if_splits)

lemma playSoundFadeIn_fields:
  assumes "playSoundFadeIn h Mix_FadeInChannel err soundKey loops fadeDuration_ms s = Inr (channel, s')"
  shows "sounds s' = sounds s \<and> errorSoundKey s' = errorSoundKey s
         \<and> nextResourceKey s' = nextResourceKey s \<and> unloadQueue s' = unloadQueue s"
  using assms
  by (auto simp: playSoundFadeIn_def findChunk_def onPlayError_def occupy_def log_line_def Let_def
      split: option.splits if_splits)

lemma playSoundFadeInTimed_fields:
  assumes "playSoundFadeInTimed h Mix_FadeInChannelTimed err soundKey loops fadeDuration_ms
             playDuration_ms s = Inr (channel, s')"
  shows "sounds s' = sounds s \<and> errorSoundKey s' = errorSoundKey s
         \<and> nextResourceKey s' = nextResourceKey s \<and> unloadQueue s' = unloadQueue s"
  using assms
  by (auto simp: playSoundFadeInTimed_def findChunk_def onPlayError_def occupy_def log_line_def
      Let_def split: option.splits if_splits)

lemma onChannelFinished_fields:
  assumes "onChannelFinished channel s = Inr s'"
  shows "sounds s' = sounds s \<and> errorSoundKey s' = errorSoundKey s
         \<and> nextResourceKey s' = nextResourceKey s \<and> unloadQueue s' = unloadQueue s"
  using assms by (auto simp: onChannelFinished_def split: if_splits)

lemma setChannelVolume_fields:
  assumes "setChannelVolume h channel vol s = Inr s'"
  shows "sounds s' = sounds s \<and> errorSoundKey s' = errorSoundKey s
         \<and> nextResourceKey s' = nextResourceKey s \<and> unloadQueue s' = unloadQueue s"
  using assms by (auto simp: setChannelVolume_def Let_def split: if_splits prod.splits)

lemma reachable_invariant: "reachable h s \<Longrightarrow> invariant s"
proof (induction rule: reachable.induct)
  case (after_initialize b wave sfxconf c s)
  then show ?case by (rule invariant_initialize)
next
  case (after_loadSoundWAV s Mix_LoadWAV soundName k s')
  then show ?case by (blast intro: invariant_loadSoundWAV)
next
  case (after_queueUnloadSound s soundKey s')
  then show ?case by (blast intro: invariant_queueUnloadSound)
next
  case (after_service s dt s')
  then show ?case by (blast intro: invariant_service)
next
  case (after_playSound s Mix_PlayChannel err soundKey loops channel s')
  from after_playSound.IH playSound_fields [OF after_playSound.hyps(2)]
  show ?case by (auto intro: invariant_same_table)
next
  case (after_playSoundTimed s Mix_PlayChannelTimed err soundKey loops playDuration_ms channel s')
  from after_playSoundTimed.IH playSoundTimed_fields [OF after_playSoundTimed.hyps(2)]
  show ?case by (auto intro: invariant_same_table)
next
  case (after_playSoundFadeIn s Mix_FadeInChannel err soundKey loops fadeDuration_ms channel s')
  from after_playSoundFadeIn.IH playSoundFadeIn_fields [OF after_playSoundFadeIn.hyps(2)]
  show ?case by (auto intro: invariant_same_table)
next
  case (after_playSoundFadeInTimed s Mix_FadeInChannelTimed err soundKey loops fadeDuration_ms
      playDuration_ms channel s')
  from after_playSoundFadeInTimed.IH
    playSoundFadeInTimed_fields [OF after_playSoundFadeInTimed.hyps(2)]
  show ?case by (auto intro: invariant_same_table)
next
  case (after_onChannelFinished s channel s')
  from after_onChannelFinished.IH onChannelFinished_fields [OF after_onChannelFinished.hyps(2)]
  show ?case by (auto intro: invariant_same_table)
next
  case (after_setChannelVolume s channel vol s')
  from after_setChannelVolume.IH setChannelVolume_fields [OF after_setChannelVolume.hyps(2)]
  show ?case by (auto intro: invariant_same_table)
qed

subsection \<open>The small run\<close>

lemma float_example: "fmul (float_of_int 11025) errorSoundDuration_s = Finite 11025 (- 1)"
  by code_simp

lemma count_example: "float_to_int (Finite 11025 (- 1)) = Inr 5512"
  by (simp add: float_to_int_def INT_MAX_def)

lemma beep_example:
  "samplingFreq_hz (sfxconfiguration s) = 11025 \<Longrightarrow>
   generateSineBeep example_header uint8_t silence errorSoundFreq_hz errorSoundDuration_s s = Inr beep"
  by (simp add: generateSineBeep_def float_example count_example beep_def example_header_def
      errorSoundVolume_def)

lemma initialize_example:
  "initialize example_header example_answers silence example_configuration
     (module_data example_configuration) = Inr (True, fresh)"
proof -
  have "generateErrorSound example_header silence SAMPLE_FORMAT_U8
          ((log_line INFO msg_sfx_initializing [] (module_data example_configuration))
             \<lparr>sfxconfiguration := example_configuration,
              channelPlayback := [- 1, - 1], channelVolume := [128, 128],
              mix_channel_volume := [128, 128]\<rparr>)
        = Inr ((fresh\<lparr>logged := [(INFO, msg_sfx_initializing, [])]\<rparr>))"
    by (simp add: generateErrorSound_def beep_example example_configuration_def
        log_line_def module_data_def sounds_emplace_def fresh_def errorSoundName_def)
  then show ?thesis
    by (simp add: initialize_def Let_def resize_def example_configuration_def
        example_answers_def example_header_def nullResourceKey_def MIX_MAX_VOLUME_def
        log_line_def module_data_def logSpec_def fresh_def numeral_2_eq_2 initialize_log_def)
qed

lemma load_explosion:
  "loadSoundWAV example_header example_files ''explosion'' fresh =
     Inr (1, fresh\<lparr>nextResourceKey := 2,
                   sounds := sounds fresh @
                     [(1, \<lparr>name = ''explosion'', chunk = Some clip, referenceCount = 1\<rparr>)],
                   logged := logged fresh @
                     [(INFO, msg_sfx_loading_sound, ''explosion''),
                      (INFO, msg_sfx_load_sound_success,
                        ''[name:key]=['' @ ''explosion'' @ '':'' @ to_string 1 @ '']'')]\<rparr>)"
  by (simp add: loadSoundWAV_def Let_def log_line_def fresh_def example_files_def
      example_header_def sounds_emplace_def)

lemma loaded_reached:
  "and_then (loadSoundWAV example_header example_files ''explosion'' fresh)
     (\<lambda>(explosion, s). loadSoundWAV example_header example_files ''pickup'' s) = Inr (2, loaded)"
  by (simp add: load_explosion and_then_def)
     (simp add: loadSoundWAV_def Let_def log_line_def fresh_def example_files_def
      example_header_def sounds_emplace_def loaded_def)

lemma busy_reached: "unload_while_playing = Inr busy"
proof -
  have play: "playSound example_header channel_0 [] 2 0 loaded
                = Inr (0, loaded\<lparr>channelPlayback := [2, - 1]\<rparr>)"
    by (simp add: playSound_def findChunk_def sounds_find_def loaded_def channel_0_def
        occupy_def nullResourceKey_def Let_def)
  have queue: "and_then (queueUnloadSound 1 (loaded\<lparr>channelPlayback := [2, - 1]\<rparr>))
                 (queueUnloadSound 2) = Inr busy"
    by (simp add: queueUnloadSound_def and_then_def sounds_find_def loaded_def busy_def)
  have "unload_while_playing =
        and_then (and_then (loadSoundWAV example_header example_files ''explosion'' fresh)
          (\<lambda>(explosion, s). loadSoundWAV example_header example_files ''pickup'' s))
        (\<lambda>(pickup, s). and_then (playSound example_header channel_0 [] pickup 0 s)
          (\<lambda>(channel, s). and_then (queueUnloadSound 1 s) (queueUnloadSound pickup)))"
    unfolding unload_while_playing_def initialize_example
    by (simp add: and_then_def load_explosion split: sum.splits)
  also have "\<dots> = Inr busy"
    unfolding loaded_reached
    by (simp add: and_then_def play) (use queue in \<open>simp add: and_then_def\<close>)
  finally show ?thesis .
qed

lemma load_pickup:
  "loadSoundWAV example_header example_files ''pickup''
     (fresh\<lparr>nextResourceKey := 2,
            sounds := sounds fresh @
              [(1, \<lparr>name = ''explosion'', chunk = Some clip, referenceCount = 1\<rparr>)],
            logged := logged fresh @
              [(INFO, msg_sfx_loading_sound, ''explosion''),
               (INFO, msg_sfx_load_sound_success,
                 ''[name:key]=['' @ ''explosion'' @ '':'' @ to_string 1 @ '']'')]\<rparr>)
   = Inr (2, loaded)"
  using loaded_reached by (simp add: load_explosion and_then_def)

lemma play_pickup:
  "playSound example_header channel_0 [] 2 0 loaded = Inr (0, loaded\<lparr>channelPlayback := [2, - 1]\<rparr>)"
  by (simp add: playSound_def findChunk_def sounds_find_def loaded_def channel_0_def
      occupy_def nullResourceKey_def Let_def)

lemma queue_explosion:
  "queueUnloadSound 1 (loaded\<lparr>channelPlayback := [2, - 1]\<rparr>)
     = Inr (loaded\<lparr>channelPlayback := [2, - 1], unloadQueue := [1]\<rparr>)"
  by (simp add: queueUnloadSound_def sounds_find_def loaded_def)

lemma queue_pickup:
  "queueUnloadSound 2 (loaded\<lparr>channelPlayback := [2, - 1], unloadQueue := [1]\<rparr>) = Inr busy"
  by (simp add: queueUnloadSound_def sounds_find_def loaded_def busy_def)

lemma reachable_busy: "reachable example_header busy"
proof -
  have "reachable example_header fresh"
    using initialize_example by (rule after_initialize)
  then have "reachable example_header loaded"
    by (blast intro: after_loadSoundWAV load_explosion load_pickup)
  then have "reachable example_header (loaded\<lparr>channelPlayback := [2, - 1]\<rparr>)"
    using play_pickup by (rule after_playSound)
  then have "reachable example_header (loaded\<lparr>channelPlayback := [2, - 1], unloadQueue := [1]\<rparr>)"
    using queue_explosion by (rule after_queueUnloadSound)
  then show ?thesis
    using queue_pickup by (rule after_queueUnloadSound)
qed

lemma service_busy: "service dt busy = Inr after_service"
  by (simp add: service_def unloadUnusedSounds_def remove_if_def remove_if_loop.simps
      busy_def loaded_def unloadSound_def sounds_find_def sounds_erase_def after_service_def)

lemma service_after_finish:
  "and_then (onChannelFinished 0 after_service) (service dt) = Inl AssertionFailed"
  by (simp add: and_then_def onChannelFinished_def after_service_def busy_def loaded_def
      example_configuration_def service_def unloadUnusedSounds_def remove_if_def
      remove_if_loop.simps nullResourceKey_def unloadSound_def sounds_find_def
      sounds_erase_def)

subsection \<open>Channel volume of the null channel\<close>

text \<open>
  Claim C9. \<open>getChannelVolume\<close> called with the \<open>NULL_CHANNEL\<close> sentinel returns 0,
  whatever the state of the module is, so whatever volumes were set before.
\<close>

theorem getChannelVolume_NULL_CHANNEL: "getChannelVolume h (NULL_CHANNEL h) s = Inr 0"
  by (simp add: getChannelVolume_def)

subsection \<open>Queueing a sound for unloading\<close>

lemma count_list_distinct: "distinct xs \<Longrightarrow> x \<in> set xs \<Longrightarrow> count_list xs x = 1"
  by (induction xs) auto

text \<open>
  Claim C3, as stated: \<open>queueUnloadSound\<close> with the key of the error sound is rejected as
  a logged no-op. It is not: on the module as \<open>initialize\<close> leaves it, the call is no
  logged no-op.
\<close>

theorem queueUnloadSound_fallback_not_logged_no_op:
  "queueUnloadSound (errorSoundKey fresh) fresh = Inl AssertionFailed
   \<and> \<not> logged_no_op fresh (queueUnloadSound (errorSoundKey fresh) fresh)"
  by (simp add: queueUnloadSound_def logged_no_op_def)

text \<open>
  Claim C3, amended: \<open>queueUnloadSound\<close> with the key of the error sound fails the
  assertion \<open>soundKey != errorSoundKey\<close> that opens the function: the call ends there,
  before anything is written to the log or appended to the unload queue.
\<close>

theorem queueUnloadSound_fallback_asserts:
  "queueUnloadSound (errorSoundKey s) s = Inl AssertionFailed"
  by (simp add: queueUnloadSound_def)

text \<open>
  Claim C7. For a key that is in the unload queue already, \<open>queueUnloadSound\<close> is a
  logged no-op: it returns, writes one warning and changes nothing else; the queue, which
  holds no key twice and never the key of the error sound (as in every state of a run, by
  \<open>reachable_invariant\<close>), still holds the key exactly once.
\<close>

theorem queueUnloadSound_again:
  assumes "soundKey \<in> set (unloadQueue s)"
      and "errorSoundKey s \<notin> set (unloadQueue s)"
      and "distinct (unloadQueue s)"
  shows "queueUnloadSound soundKey s =
           Inr (s\<lparr>logged := logged s @
                  [(WARN,
                    if sounds_find soundKey (sounds s) = None
                    then msg_sfx_unloading_nonexistent_sound else msg_sfx_already_unloading_sound,
                    to_string soundKey)]\<rparr>)
         \<and> logged_no_op s (queueUnloadSound soundKey s)
         \<and> count_list (unloadQueue s) soundKey = 1"
proof -
  from assms(1,2) have "soundKey \<noteq> errorSoundKey s" by auto
  with assms(1) have result: "queueUnloadSound soundKey s =
           Inr (s\<lparr>logged := logged s @
                  [(WARN,
                    if sounds_find soundKey (sounds s) = None
                    then msg_sfx_unloading_nonexistent_sound else msg_sfx_already_unloading_sound,
                    to_string soundKey)]\<rparr>)"
    by (simp add: queueUnloadSound_def log_line_def split: option.splits)
  moreover have "logged_no_op s (queueUnloadSound soundKey s)"
    unfolding result by (simp add: logged_no_op_def forget_log_def)
  moreover from assms(1,3) have "count_list (unloadQueue s) soundKey = 1"
    by (simp add: count_list_distinct)
  ultimately show ?thesis by simp
qed

theorem queueUnloadSound_again_witness:
  "2 \<in> set (unloadQueue busy) \<and> errorSoundKey busy \<notin> set (unloadQueue busy)
   \<and> distinct (unloadQueue busy)
   \<and> queueUnloadSound 2 busy =
       Inr (busy\<lparr>logged := logged busy @ [(WARN, msg_sfx_already_unloading_sound, to_string 2)]\<rparr>)
   \<and> count_list (unloadQueue busy) 2 = 1"
  using queueUnloadSound_again [of 2 busy]
  by (simp add: busy_def loaded_def sounds_find_def)

subsection \<open>Playing a sound that is not loaded\<close>

text \<open>
  Claim C8. When the key is not in the resource table, each of \<open>playSound\<close>,
  \<open>playSoundTimed\<close>, \<open>playSoundFadeIn\<close> and \<open>playSoundFadeInTimed\<close> returns
  \<open>NULL_CHANNEL\<close> and leaves the module as it was, but for the warning it logs.
\<close>

theorem play_nonexistent_sound:
  assumes "sounds_find soundKey (sounds s) = None"
  shows "playSound h Mix_PlayChannel err soundKey loops s =
           Inr (NULL_CHANNEL h,
                s\<lparr>logged := logged s @
                  [(WARN, msg_sfx_playing_nonexistent_sound, to_string soundKey)]\<rparr>)
       \<and> playSoundTimed h Mix_PlayChannelTimed err soundKey loops playDuration_ms s =
           Inr (NULL_CHANNEL h,
                s\<lparr>logged := logged s @
                  [(WARN, msg_sfx_playing_nonexistent_sound, to_string soundKey)]\<rparr>)
       \<and> playSoundFadeIn h Mix_FadeInChannel err soundKey loops fadeDuration_ms s =
           Inr (NULL_CHANNEL h,
                s\<lparr>logged := logged s @
                  [(WARN, msg_sfx_playing_nonexistent_sound, to_string soundKey)]\<rparr>)
       \<and> playSoundFadeInTimed h Mix_FadeInChannelTimed err soundKey loops fadeDuration_ms
             playDuration_ms s =
           Inr (NULL_CHANNEL h,
                s\<lparr>logged := logged s @
                  [(WARN, msg_sfx_playing_nonexistent_sound, to_string soundKey)]\<rparr>)"
  using assms
  by (simp add: playSound_def playSoundTimed_def playSoundFadeIn_def playSoundFadeInTimed_def
      findChunk_def log_line_def)

theorem play_nonexistent_sound_witness:
  "sounds_find 7 (sounds busy) = None
   \<and> playSound example_header channel_0 [] 7 0 busy =
       Inr (- 2, busy\<lparr>logged := logged busy @
                   [(WARN, msg_sfx_playing_nonexistent_sound, to_string 7)]\<rparr>)"
  using play_nonexistent_sound [of 7 busy example_header channel_0 "[]" 0]
  by (simp add: busy_def loaded_def sounds_find_def example_header_def)

subsection \<open>Loading a sound\<close>

text \<open>Below \<open>INT_MAX\<close> the increment of a reference count adds one.\<close>

lemma sint_increment:
  fixes x :: c_int
  assumes "sint x < INT_MAX"
  shows "sint (x + 1) = sint x + 1"
proof -
  have "- (2 ^ 31) \<le> sint x" using sint_ge [of x] by simp
  with assms show ?thesis
    by (simp add: sint_word_ariths signed_take_bit_int_eq_self INT_MAX_def)
qed

lemma loadSoundWAV_found:
  assumes "distinct (map (name \<circ> snd) (sounds s))"
      and "sounds_find k (sounds s) = Some r"
      and "name r = soundName"
  shows "loadSoundWAV h Mix_LoadWAV soundName s =
           Inr (k, s\<lparr>sounds := increment_reference k (sounds s),
                     logged := logged s @
                       [(INFO, msg_sfx_loading_sound, soundName),
                        (INFO, msg_sfx_sound_already_loaded,
                           ''reference count='' @ to_string (sint (referenceCount r + 1)))]\<rparr>)"
proof -
  from assms have "load_loop soundName (sounds s)
      = Some (k, referenceCount r + 1, increment_reference k (sounds s))"
    by (simp add: load_loop_found sounds_find_def)
  then show ?thesis
    by (simp add: loadSoundWAV_def Let_def log_line_def)
qed

text \<open>Loading a sound of the table again and again.\<close>

lemma increment_reference_times:
  "(increment_reference k ^^ n) ((k', r) # ps) =
     (if k' = k then (k', r\<lparr>referenceCount := referenceCount r + of_nat n\<rparr>) # ps
      else (k', r) # (increment_reference k ^^ n) ps)"
  by (induction n) (auto simp: add.assoc)

lemma increment_reference_times_Nil: "(increment_reference k ^^ n) [] = []"
  by (induction n) auto

lemma map_of_name_increment_reference_times:
  "map_option name (map_of ((increment_reference k ^^ n) ps) k') = map_option name (map_of ps k')"
  by (induction n) (simp_all add: map_of_name_increment_reference)

lemma reachable_reload:
  assumes "reachable h s" and "sounds_find k (sounds s) = Some r"
  shows "\<exists>l. reachable h (s\<lparr>sounds := (increment_reference k ^^ n) (sounds s), logged := l\<rparr>)"
proof (induction n)
  case 0
  from assms(1)
  have "reachable h (s\<lparr>sounds := (increment_reference k ^^ 0) (sounds s), logged := logged s\<rparr>)"
    by simp
  then show ?case by (rule exI)
next
  case (Suc n)
  then obtain l where
    reach: "reachable h (s\<lparr>sounds := (increment_reference k ^^ n) (sounds s), logged := l\<rparr>)"
    by blast
  define s' where "s' = s\<lparr>sounds := (increment_reference k ^^ n) (sounds s), logged := l\<rparr>"
  have table: "sounds s' = (increment_reference k ^^ n) (sounds s)" by (simp add: s'_def)
  from reach have "invariant s'" unfolding s'_def by (rule reachable_invariant)
  then have names: "distinct (map (name \<circ> snd) (sounds s'))" by (rule invariantD(2))
  from assms(2) have "map_option name (map_of (sounds s') k) = Some (name r)"
    by (simp add: table map_of_name_increment_reference_times sounds_find_def)
  then obtain r' where r': "sounds_find k (sounds s') = Some r'" "name r' = name r"
    by (auto simp: sounds_find_def)
  have "reachable h (s'\<lparr>sounds := increment_reference k (sounds s'),
                     logged := logged s' @
                       [(INFO, msg_sfx_loading_sound, name r),
                        (INFO, msg_sfx_sound_already_loaded,
                           ''reference count='' @ to_string (sint (referenceCount r' + 1)))]\<rparr>)"
    using reach [folded s'_def] loadSoundWAV_found [OF names r', of h "\<lambda>_. None"]
    by (rule after_loadSoundWAV)
  then have "reachable h (s\<lparr>sounds := (increment_reference k ^^ Suc n) (sounds s),
                     logged := l @
                       [(INFO, msg_sfx_loading_sound, name r),
                        (INFO, msg_sfx_sound_already_loaded,
                           ''reference count='' @ to_string (sint (referenceCount r' + 1)))]\<rparr>)"
    by (simp add: s'_def)
  then show ?case by blast
qed

lemma reachable_loaded: "reachable example_header loaded"
proof -
  have "reachable example_header fresh"
    using initialize_example by (rule after_initialize)
  then show ?thesis
    by (blast intro: after_loadSoundWAV load_explosion load_pickup)
qed

lemma worn_reached: "\<exists>l. reachable example_header (worn\<lparr>logged := l\<rparr>)"
proof -
  from reachable_reload [OF reachable_loaded, of 0 _ 2147483647] obtain l where
    first: "reachable example_header
      (loaded\<lparr>sounds := (increment_reference 0 ^^ 2147483647) (sounds loaded), logged := l\<rparr>)"
    by (auto simp: loaded_def sounds_find_def)
  from reachable_reload [OF first, of 1 _ 2147483646] obtain l' where
    "reachable example_header
      (loaded\<lparr>sounds := (increment_reference 1 ^^ 2147483646)
                          ((increment_reference 0 ^^ 2147483647) (sounds loaded)),
             logged := l'\<rparr>)"
    by (auto simp: loaded_def sounds_find_def increment_reference_times)
  moreover have "(increment_reference 1 ^^ 2147483646)
                          ((increment_reference 0 ^^ 2147483647) (sounds loaded)) = sounds worn"
    by (simp add: loaded_def worn_def increment_reference_times)
  ultimately show ?thesis
    by (auto simp: worn_def)
qed

text \<open>
  Claim C4, as stated: every further load of a name in the table adds exactly one to the
  reference count of its sound. With the count at \<open>INT_MAX\<close> it does not: the load
  returns the key, and the count, a 32-bit \<open>int\<close>, wraps around to \<open>INT_MIN\<close>. The
  module \<open>worn\<close> is, its log apart, a state of a run (\<open>worn_reached\<close>).
\<close>

theorem reload_wraps_at_INT_MAX:
  "sounds_find 1 (sounds worn) =
     Some \<lparr>name = ''explosion'', chunk = Some clip, referenceCount = 2147483647\<rparr>
   \<and> sint (2147483647 :: c_int) = 2147483647
   \<and> loadSoundWAV example_header example_files ''explosion'' worn =
       Inr (1, worn\<lparr>sounds :=
                  [(0, \<lparr>name = ''sfxerror'', chunk = Some beep, referenceCount = 2147483647\<rparr>),
                   (1, \<lparr>name = ''explosion'', chunk = Some clip, referenceCount = 2147483648\<rparr>),
                   (2, \<lparr>name = ''pickup'', chunk = Some clip, referenceCount = 1\<rparr>)],
                logged := logged worn @
                  [(INFO, msg_sfx_loading_sound, ''explosion''),
                   (INFO, msg_sfx_sound_already_loaded,
                      ''reference count='' @ to_string (- 2147483648))]\<rparr>)
   \<and> sint (2147483648 :: c_int) = - 2147483648"
  by (simp add: loadSoundWAV_def Let_def log_line_def worn_def loaded_def sounds_find_def)

text \<open>
  Claim C4, amended: when the table holds a sound of the given name (names in the table
  are distinct, as in every state of a run, by \<open>reachable_invariant\<close>), \<open>loadSoundWAV\<close>
  returns the key of that sound; the table has the same keys and names as before and, as
  a map, differs at that key only, so every further call returns that key again. Nothing
  but the table and the log changes. The reference count of the sound goes up by exactly
  one as long as it is below \<open>INT_MAX\<close>.
\<close>

theorem loadSoundWAV_again:
  assumes "distinct (map (name \<circ> snd) (sounds s))"
      and "sounds_find k (sounds s) = Some r"
      and "name r = soundName"
  shows "loadSoundWAV h Mix_LoadWAV soundName s =
           Inr (k, s\<lparr>sounds := increment_reference k (sounds s),
                     logged := logged s @
                       [(INFO, msg_sfx_loading_sound, soundName),
                        (INFO, msg_sfx_sound_already_loaded,
                           ''reference count='' @ to_string (sint (referenceCount r + 1)))]\<rparr>)
       \<and> map_of (increment_reference k (sounds s)) =
           (map_of (sounds s))(k \<mapsto> r\<lparr>referenceCount := referenceCount r + 1\<rparr>)
       \<and> (sint (referenceCount r) < INT_MAX
            \<longrightarrow> sint (referenceCount r + 1) = sint (referenceCount r) + 1)
       \<and> map fst (increment_reference k (sounds s)) = map fst (sounds s)
       \<and> map (name \<circ> snd) (increment_reference k (sounds s)) = map (name \<circ> snd) (sounds s)"
  using assms(2) loadSoundWAV_found [OF assms] sint_increment [of "referenceCount r"]
  by (simp add: map_of_increment_reference keys_increment_reference names_increment_reference
      sounds_find_def)

theorem loadSoundWAV_again_witness:
  "distinct (map (name \<circ> snd) (sounds loaded))
   \<and> sounds_find 1 (sounds loaded) = Some \<lparr>name = ''explosion'', chunk = Some clip, referenceCount = 1\<rparr>
   \<and> sint (1 :: c_int) < INT_MAX
   \<and> fst (projr (loadSoundWAV example_header example_files ''explosion'' loaded)) = 1
   \<and> sounds (snd (projr (loadSoundWAV example_header example_files ''explosion'' loaded))) =
        [(0, \<lparr>name = ''sfxerror'', chunk = Some beep, referenceCount = 0\<rparr>),
         (1, \<lparr>name = ''explosion'', chunk = Some clip, referenceCount = 2\<rparr>),
         (2, \<lparr>name = ''pickup'', chunk = Some clip, referenceCount = 1\<rparr>)]
   \<and> sint (2 :: c_int) = 2"
  using loadSoundWAV_again [of loaded 1 "\<lparr>name = ''explosion'', chunk = Some clip, referenceCount = 1\<rparr>"
      "''explosion''" example_header example_files]
  by (simp add: loaded_def sounds_find_def INT_MAX_def)

text \<open>
  Claim C5, as stated: every load that fails to decode adds one to the reference count of
  the error sound. With that count at \<open>INT_MAX\<close> the load returns the key of the error
  sound and the count wraps around to \<open>INT_MIN\<close>.
\<close>

theorem fallback_count_wraps_on_decode_failure:
  "''missing'' \<notin> set (map (name \<circ> snd) (sounds worn))
   \<and> example_files (RESOURCE_PATH_SOUNDS example_header @ ''missing'' @ FILE_EXTENSION example_header)
       = None
   \<and> sounds_find (errorSoundKey worn) (sounds worn) =
       Some \<lparr>name = ''sfxerror'', chunk = Some beep, referenceCount = 2147483647\<rparr>
   \<and> sint (2147483647 :: c_int) = 2147483647
   \<and> fst (projr (loadSoundWAV example_header example_files ''missing'' worn)) = 0
   \<and> sounds (snd (projr (loadSoundWAV example_header example_files ''missing'' worn))) =
        [(0, \<lparr>name = ''sfxerror'', chunk = Some beep, referenceCount = 2147483648\<rparr>),
         (1, \<lparr>name = ''explosion'', chunk = Some clip, referenceCount = 2147483647\<rparr>),
         (2, \<lparr>name = ''pickup'', chunk = Some clip, referenceCount = 1\<rparr>)]
   \<and> sint (2147483648 :: c_int) = - 2147483648"
  by (simp add: loadSoundWAV_def Let_def log_line_def worn_def loaded_def sounds_find_def
      example_files_def example_header_def returnErrorSound_def)

text \<open>
  Claim C5, amended: when no sound of the given name is in the table and the file does
  not decode, \<open>loadSoundWAV\<close> returns the key of the error sound, which is in the table
  in every state of a run; the table keeps its keys, so no entry is created, and
  \<open>nextResourceKey\<close> stays as it was. The reference count of the error sound goes up by
  exactly one as long as it is below \<open>INT_MAX\<close>.
\<close>

theorem loadSoundWAV_decode_failure:
  assumes "soundName \<notin> set (map (name \<circ> snd) (sounds s))"
      and "Mix_LoadWAV (RESOURCE_PATH_SOUNDS h @ soundName @ FILE_EXTENSION h) = None"
      and "sounds_find (errorSoundKey s) (sounds s) = Some r"
  shows "loadSoundWAV h Mix_LoadWAV soundName s =
           Inr (errorSoundKey s,
                s\<lparr>sounds := increment_reference (errorSoundKey s) (sounds s),
                  logged := logged s @
                    [(INFO, msg_sfx_loading_sound, soundName),
                     (ERROR, msg_sfx_fail_load_sound,
                        RESOURCE_PATH_SOUNDS h @ soundName @ FILE_EXTENSION h),
                     (INFO, msg_sfx_using_error_sound,
                        RESOURCE_PATH_SOUNDS h @ soundName @ FILE_EXTENSION h),
                     (INFO, msg_sfx_error_sound_usage, to_string (sint (referenceCount r + 1)))]\<rparr>)
       \<and> map_of (increment_reference (errorSoundKey s) (sounds s)) =
           (map_of (sounds s))(errorSoundKey s \<mapsto> r\<lparr>referenceCount := referenceCount r + 1\<rparr>)
       \<and> (sint (referenceCount r) < INT_MAX
            \<longrightarrow> sint (referenceCount r + 1) = sint (referenceCount r) + 1)
       \<and> map fst (increment_reference (errorSoundKey s) (sounds s)) = map fst (sounds s)"
proof -
  from assms(1) have "load_loop soundName (sounds s) = None"
    by (rule load_loop_None)
  with assms(2,3) sint_increment [of "referenceCount r"] show ?thesis
    by (simp add: loadSoundWAV_def Let_def log_line_def returnErrorSound_def
        map_of_increment_reference keys_increment_reference sounds_find_def)
qed

theorem loadSoundWAV_decode_failure_witness:
  "''missing'' \<notin> set (map (name \<circ> snd) (sounds loaded))
   \<and> example_files (RESOURCE_PATH_SOUNDS example_header @ ''missing'' @ FILE_EXTENSION example_header) = None
   \<and> sounds_find (errorSoundKey loaded) (sounds loaded) = Some \<lparr>name = ''sfxerror'', chunk = Some beep, referenceCount = 0\<rparr>
   \<and> sint (0 :: c_int) < INT_MAX
   \<and> fst (projr (loadSoundWAV example_header example_files ''missing'' loaded)) = 0
   \<and> sounds (snd (projr (loadSoundWAV example_header example_files ''missing'' loaded))) =
        [(0, \<lparr>name = ''sfxerror'', chunk = Some beep, referenceCount = 1\<rparr>),
         (1, \<lparr>name = ''explosion'', chunk = Some clip, referenceCount = 1\<rparr>),
         (2, \<lparr>name = ''pickup'', chunk = Some clip, referenceCount = 1\<rparr>)]
   \<and> sint (1 :: c_int) = 1"
  using loadSoundWAV_decode_failure [of "''missing''" loaded example_files example_header
      "\<lparr>name = ''sfxerror'', chunk = Some beep, referenceCount = 0\<rparr>"]
  by (simp add: loaded_def sounds_find_def example_files_def example_header_def INT_MAX_def)

text \<open>
  Claim C10, as stated: loading the name \<open>sfxerror\<close> increments the reference count of
  the error sound. With that count at \<open>INT_MAX\<close> the load returns the key of the error
  sound and the count wraps around to \<open>INT_MIN\<close>.
\<close>

theorem sfxerror_count_wraps:
  "sounds_find (errorSoundKey worn) (sounds worn) =
       Some \<lparr>name = ''sfxerror'', chunk = Some beep, referenceCount = 2147483647\<rparr>
   \<and> sint (2147483647 :: c_int) = 2147483647
   \<and> fst (projr (loadSoundWAV example_header example_files ''sfxerror'' worn)) = 0
   \<and> sounds (snd (projr (loadSoundWAV example_header example_files ''sfxerror'' worn))) =
        [(0, \<lparr>name = ''sfxerror'', chunk = Some beep, referenceCount = 2147483648\<rparr>),
         (1, \<lparr>name = ''explosion'', chunk = Some clip, referenceCount = 2147483647\<rparr>),
         (2, \<lparr>name = ''pickup'', chunk = Some clip, referenceCount = 1\<rparr>)]
   \<and> sint (2147483648 :: c_int) = - 2147483648"
  by (simp add: loadSoundWAV_def Let_def log_line_def worn_def loaded_def sounds_find_def)

text \<open>
  Claim C10, amended: the error sound is in the table under the name \<open>sfxerror\<close> (from
  \<open>initialize\<close> on, by \<open>reachable_invariant\<close>), so \<open>loadSoundWAV\<close> with that name
  returns the key of the error sound. The decoder is not asked: the result is the same
  whatever the decoder would answer. The reference count of the error sound goes up by
  one as long as it is below \<open>INT_MAX\<close>.
\<close>

theorem loadSoundWAV_sfxerror:
  assumes "distinct (map (name \<circ> snd) (sounds s))"
      and "sounds_find (errorSoundKey s) (sounds s) = Some r"
      and "name r = errorSoundName"
  shows "loadSoundWAV h Mix_LoadWAV ''sfxerror'' s =
           Inr (errorSoundKey s,
                s\<lparr>sounds := increment_reference (errorSoundKey s) (sounds s),
                  logged := logged s @
                    [(INFO, msg_sfx_loading_sound, ''sfxerror''),
                     (INFO, msg_sfx_sound_already_loaded,
                        ''reference count='' @ to_string (sint (referenceCount r + 1)))]\<rparr>)
       \<and> map_of (increment_reference (errorSoundKey s) (sounds s)) =
           (map_of (sounds s))(errorSoundKey s \<mapsto> r\<lparr>referenceCount := referenceCount r + 1\<rparr>)
       \<and> (sint (referenceCount r) < INT_MAX
            \<longrightarrow> sint (referenceCount r + 1) = sint (referenceCount r) + 1)
       \<and> map fst (increment_reference (errorSoundKey s) (sounds s)) = map fst (sounds s)
       \<and> loadSoundWAV h Mix_LoadWAV ''sfxerror'' s = loadSoundWAV h Mix_LoadWAV' ''sfxerror'' s"
proof -
  from assms(3) have n: "name r = ''sfxerror''" by (simp add: errorSoundName_def)
  from assms(2) have "map_of (sounds s) (errorSoundKey s) = Some r" by (simp add: sounds_find_def)
  with sint_increment [of "referenceCount r"] show ?thesis
    by (simp add: loadSoundWAV_found [OF assms(1,2) n] map_of_increment_reference
        keys_increment_reference)
qed

theorem loadSoundWAV_sfxerror_witness:
  "distinct (map (name \<circ> snd) (sounds fresh))
   \<and> sounds_find (errorSoundKey fresh) (sounds fresh) = Some \<lparr>name = ''sfxerror'', chunk = Some beep, referenceCount = 0\<rparr>
   \<and> sint (0 :: c_int) < INT_MAX
   \<and> loadSoundWAV example_header example_files ''sfxerror'' fresh =
        Inr (0, fresh\<lparr>sounds := [(0, \<lparr>name = ''sfxerror'', chunk = Some beep, referenceCount = 1\<rparr>)],
                     logged := logged fresh @
                       [(INFO, msg_sfx_loading_sound, ''sfxerror''),
                        (INFO, msg_sfx_sound_already_loaded, ''reference count='' @ to_string 1)]\<rparr>)
   \<and> sint (1 :: c_int) = 1"
  using loadSoundWAV_sfxerror [of fresh "\<lparr>name = ''sfxerror'', chunk = Some beep, referenceCount = 0\<rparr>"
      example_header example_files]
  by (simp add: fresh_def sounds_find_def errorSoundName_def INT_MAX_def)

subsection \<open>Setting and reading a channel volume\<close>

text \<open>
  On a channel of the mixer, \<open>setChannelVolume\<close> stores what \<open>Mix_Volume\<close> returns,
  the volume the channel had before the call, so that is what \<open>getChannelVolume\<close>
  returns next, whatever volume was asked for.
\<close>

lemma set_then_get_previous:
  assumes "channel \<noteq> NULL_CHANNEL h" and "ALL_CHANNELS h \<le> channel" and "0 \<le> channel"
      and "channel < numMixChannels (sfxconfiguration s)"
      and "nat channel < length (channelVolume s)"
      and "nat channel < length (mix_channel_volume s)"
  shows "set_then_get h channel vol s = Inr (mix_channel_volume s ! nat channel)"
  using assms
  by (simp add: set_then_get_def and_then_def setChannelVolume_def getChannelVolume_def
      Mix_Volume_def Let_def)

text \<open>
  Claim C2, at \<open>setChannelVolume(0, -5)\<close> on the module as \<open>initialize\<close> leaves it:
  \<open>getChannelVolume(0)\<close> then returns 128, the volume of the channel before the call,
  where the claim has the clamped value, \<open>MIN_VOLUME\<close>.
\<close>

theorem set_then_get_not_clamped:
  "set_then_get example_header 0 (- 5) fresh = Inr 128
   \<and> clamp (- 5) (MIN_VOLUME example_header) (MAX_VOLUME example_header) = 0"
  using set_then_get_previous [of 0 example_header fresh "- 5"]
  by (simp add: fresh_def example_header_def example_configuration_def clamp_def)

subsection \<open>Service\<close>

text \<open>
  Claim C1, on a run of the module: the sounds 1 and 2 are loaded, sound 2 plays on
  channel 0 and both are queued for unloading. The next \<open>service\<close> frees sound 2, the
  one that channel 0 still plays, keeps sound 1 loaded and drops it from the queue. When
  channel 0 has finished, the following \<open>service\<close> fails the assertion of
  \<open>unloadSound\<close>, since sound 2 is gone already.
\<close>

theorem service_frees_playing_sound:
  "unload_while_playing = Inr busy \<and> reachable example_header busy
   \<and> unloadQueue busy = [1, 2] \<and> channelPlayback busy = [2, - 1]
   \<and> sounds_find 2 (sounds busy) = Some \<lparr>name = ''pickup'', chunk = Some clip, referenceCount = 1\<rparr>
   \<and> service (Finite 1 (- 6)) busy = Inr after_service
   \<and> channelPlayback after_service = [2, - 1]
   \<and> sounds_find 2 (sounds after_service) = None
   \<and> sounds_find 1 (sounds after_service) = Some \<lparr>name = ''explosion'', chunk = Some clip, referenceCount = 1\<rparr>
   \<and> unloadQueue after_service = [2]
   \<and> and_then (onChannelFinished 0 after_service) (service (Finite 1 (- 6))) = Inl AssertionFailed"
  by (simp add: busy_reached reachable_busy service_busy service_after_finish)
     (simp add: busy_def loaded_def after_service_def sounds_find_def)

subsection \<open>The sample count of the chunk generator\<close>

lemma bitlen_le: "n < 2 ^ k \<Longrightarrow> bitlen n \<le> k"
proof (induction k arbitrary: n)
  case 0
  then show ?case by (subst bitlen.simps) simp
next
  case (Suc k)
  show ?case
  proof (cases "n \<le> 0")
    case True
    then show ?thesis by (subst bitlen.simps) simp
  next
    case False
    from Suc.prems have "n div 2 < 2 ^ k" by simp
    then have "bitlen (n div 2) \<le> k" by (rule Suc.IH)
    with False show ?thesis by (subst bitlen.simps) simp
  qed
qed

lemma two_powr_int:
  "2 powr real_of_int e = (if 0 \<le> e then 2 ^ nat e else 1 / 2 ^ nat (- e))"
  by (simp add: powr_real_of_int inverse_eq_divide)

lemma truncate_floor:
  assumes "0 \<le> M"
  shows "(if 0 \<le> e then M * 2 ^ nat e else sgn M * (\<bar>M\<bar> div 2 ^ nat (- e)))
           = \<lfloor>real_of_int M * 2 powr real_of_int e\<rfloor>"
proof (cases "0 \<le> e")
  case True
  have "real_of_int M * 2 ^ nat e = real_of_int (M * 2 ^ nat e)" by simp
  then have "\<lfloor>real_of_int M * 2 ^ nat e\<rfloor> = M * 2 ^ nat e" by (metis floor_of_int)
  with True show ?thesis by (simp add: two_powr_int)
next
  case False
  have "\<lfloor>real_of_int M / real_of_int (2 ^ nat (- e))\<rfloor> = M div 2 ^ nat (- e)"
    by (rule floor_divide_of_int_eq)
  moreover from assms have "sgn M * (\<bar>M\<bar> div 2 ^ nat (- e)) = M div 2 ^ nat (- e)"
    by (cases "M = 0") (simp_all add: sgn_if)
  ultimately show ?thesis using False by (simp add: two_powr_int)
qed

text \<open>
  Claim C6, as stated: the buffer has \<open>round(samplingRate_hz * duration_s)\<close> samples.
  At 11025 Hz and the half second of the error sound the buffer has 5512 samples, and
  the product, 5512.5, rounds to 5513.
\<close>

theorem sample_count_truncated:
  "generateSineBeep example_header uint8_t silence errorSoundFreq_hz errorSoundDuration_s fresh
     = Inr beep
   \<and> length (abuf beep) = 5512
   \<and> round (real_of_int (samplingFreq_hz (sfxconfiguration fresh)) * valof errorSoundDuration_s)
       = 5513"
proof -
  have "generateSineBeep example_header uint8_t silence errorSoundFreq_hz errorSoundDuration_s
          fresh = Inr beep"
    by (rule beep_example) (simp add: fresh_def example_configuration_def)
  moreover have "length (abuf beep) = 5512"
    by (simp add: beep_def)
  moreover have "round (11025 * (1 / 2 :: real)) = 5513"
    by (simp add: round_def)
  then have "round (real_of_int (samplingFreq_hz (sfxconfiguration fresh))
        * valof errorSoundDuration_s) = 5513"
    by (simp add: fresh_def example_configuration_def errorSoundDuration_s_def two_powr_int)
  ultimately show ?thesis by simp
qed

text \<open>
  A non-negative value that single precision holds exactly is left as it is by the
  rounding, whatever significand and exponent it is given by.
\<close>

lemma scale_up:
  assumes "real_of_int m * 2 powr real_of_int e = real_of_int M * 2 powr real_of_int E"
      and "e \<le> E"
  shows "m = M * 2 ^ nat (E - e)"
proof -
  define j where "j = nat (E - e)"
  with assms(2) have E: "E = e + int j" by simp
  have "2 powr real_of_int E = 2 powr real_of_int e * 2 ^ j"
    unfolding E by (simp add: powr_add powr_realpow)
  with assms(1) have "real_of_int m * 2 powr real_of_int e
      = (real_of_int M * 2 ^ j) * 2 powr real_of_int e"
    by (simp add: mult_ac)
  then have "real_of_int m = real_of_int M * 2 ^ j" by simp
  then have "real_of_int m = real_of_int (M * 2 ^ j)" by simp
  then show ?thesis unfolding j_def by (simp only: of_int_eq_iff)
qed

lemma round_f32_representable:
  assumes m: "0 \<le> m"
      and rep: "representable32 (real_of_int m * 2 powr real_of_int e)"
      and small: "real_of_int m * 2 powr real_of_int e < 2 ^ 128"
  shows "\<exists>q t. round_f32 m e = Finite q t \<and> 0 \<le> q
           \<and> real_of_int q * 2 powr real_of_int t = real_of_int m * 2 powr real_of_int e"
proof -
  from rep obtain M E where M: "\<bar>M\<bar> < 2 ^ 24" and E: "- 149 \<le> E"
    and eq: "real_of_int m * 2 powr real_of_int e = real_of_int M * 2 powr real_of_int E"
    by (auto simp: representable32_def)
  from m have abs_m: "\<bar>m\<bar> = m" by simp
  define t where "t = max (e + int (bitlen \<bar>m\<bar>) - 24) (- 149)"
  define k where "k = nat (t - e)"
  have unfolded: "round_f32 m e =
     (if 0 \<le> (if t \<le> e then e else t)
          \<and> 2 ^ 128 \<le> (if t \<le> e then \<bar>m\<bar>
                       else if 2 ^ (k - 1) < \<bar>m\<bar> mod 2 ^ k
                               \<or> (\<bar>m\<bar> mod 2 ^ k = 2 ^ (k - 1) \<and> odd (\<bar>m\<bar> div 2 ^ k))
                            then \<bar>m\<bar> div 2 ^ k + 1 else \<bar>m\<bar> div 2 ^ k)
                      * 2 ^ nat (if t \<le> e then e else t)
      then Infinity (m < 0)
      else Finite (sgn m * (if t \<le> e then \<bar>m\<bar>
                       else if 2 ^ (k - 1) < \<bar>m\<bar> mod 2 ^ k
                               \<or> (\<bar>m\<bar> mod 2 ^ k = 2 ^ (k - 1) \<and> odd (\<bar>m\<bar> div 2 ^ k))
                            then \<bar>m\<bar> div 2 ^ k + 1 else \<bar>m\<bar> div 2 ^ k))
             (if t \<le> e then e else t))"
    unfolding round_f32_def Let_def t_def k_def ..
  have no_overflow: "\<not> (0 \<le> t' \<and> (2::int) ^ 128 \<le> q * 2 ^ nat t')"
    if "real_of_int q * 2 powr real_of_int t' = real_of_int m * 2 powr real_of_int e" for q t'
  proof
    assume big: "0 \<le> t' \<and> (2::int) ^ 128 \<le> q * 2 ^ nat t'"
    then have "real_of_int (2 ^ 128) \<le> real_of_int (q * 2 ^ nat t')" by (simp only: of_int_le_iff)
    with big have "2 ^ 128 \<le> real_of_int q * 2 powr real_of_int t'"
      by (simp add: two_powr_int)
    with that small show False by simp
  qed
  show ?thesis
  proof (cases "t \<le> e")
    case True
    with m no_overflow [of m e] have "round_f32 m e = Finite m e"
      by (simp add: unfolded sgn_if)
    with m show ?thesis by simp
  next
    case False
    from False have k: "0 < k" "t = e + int k" by (simp_all add: k_def)
    have "t \<le> E"
    proof (cases "e + int (bitlen m) - 24 \<le> - 149")
      case True
      with E show ?thesis by (simp add: t_def abs_m)
    next
      case wide: False
      then have t: "t = e + int (bitlen m) - 24" by (simp add: t_def abs_m)
      with False have bits: "24 < bitlen m" by simp
      show ?thesis
      proof (cases "E \<le> e")
        case True
        from scale_up [OF eq [symmetric] True] have "M = m * 2 ^ nat (e - E)" .
        moreover have "(1::int) \<le> 2 ^ nat (e - E)" by simp
        ultimately have "m \<le> M" using m by (simp add: mult_le_cancel_left1)
        with M have "m < 2 ^ 24" by simp
        then have "bitlen m \<le> 24" by (rule bitlen_le)
        with bits show ?thesis by simp
      next
        case False
        then have "e \<le> E" by simp
        from scale_up [OF eq this] have mM: "m = M * 2 ^ nat (E - e)" .
        from m mM have "0 \<le> M" by (simp add: zero_le_mult_iff)
        with M have "M * 2 ^ nat (E - e) < 2 ^ 24 * 2 ^ nat (E - e)"
          by (simp add: mult_strict_right_mono)
        with mM have "m < 2 ^ (24 + nat (E - e))" by (simp add: power_add)
        then have "bitlen m \<le> 24 + nat (E - e)" by (rule bitlen_le)
        with False show ?thesis by (simp add: t)
      qed
    qed
    with k have "e \<le> E" and kE: "k \<le> nat (E - e)" by simp_all
    from scale_up [OF eq \<open>e \<le> E\<close>] have mM: "m = M * 2 ^ nat (E - e)" .
    define q where "q = M * 2 ^ (nat (E - e) - k)"
    from mM kE have mq: "m = q * 2 ^ k"
      by (simp add: q_def power_add [symmetric])
    from m mq have q0: "0 \<le> q" by (simp add: zero_le_mult_iff)
    from mq have div: "m div 2 ^ k = q" and mod: "m mod 2 ^ k = 0" by simp_all
    have "2 powr real_of_int t = 2 powr real_of_int e * 2 ^ k"
      unfolding k(2) by (simp add: powr_add powr_realpow)
    with mq have val: "real_of_int q * 2 powr real_of_int t = real_of_int m * 2 powr real_of_int e"
      by simp
    have "sgn m * q = q" using m mq by (cases "m = 0") (auto simp: sgn_if)
    with False no_overflow [OF val] div mod k(1)
    have "round_f32 m e = Finite q t"
      by (simp add: unfolded abs_m)
    with q0 val show ?thesis by blast
  qed
qed


text \<open>
  Claim C6, amended: the sample count is the product of sampling rate and duration with
  its fraction dropped, not rounded. This holds for every sampling rate from 0 to
  \<open>INT_MAX\<close> and every duration that is finite and not negative, such that single
  precision holds the rate and the product exactly and the product is below \<open>2^31\<close>.
  The half second of the error sound is such a duration at every rate up to \<open>2^24\<close>.
\<close>

theorem generateSineBeep_sample_count:
  assumes "0 \<le> samplingFreq_hz (sfxconfiguration s)"
      and "samplingFreq_hz (sfxconfiguration s) \<le> INT_MAX"
      and "representable32 (real_of_int (samplingFreq_hz (sfxconfiguration s)))"
      and "0 \<le> m"
      and "representable32 (real_of_int (samplingFreq_hz (sfxconfiguration s)) * valof (Finite m e))"
      and "real_of_int (samplingFreq_hz (sfxconfiguration s)) * valof (Finite m e) < 2 ^ 31"
  shows "generateSineBeep h T wave waveFreq_hz (Finite m e) s =
           Inr \<lparr>allocated = 1,
                abuf = map wave [0 ..< nat \<lfloor>real_of_int (samplingFreq_hz (sfxconfiguration s)) * valof (Finite m e)\<rfloor>],
                alen = (nat \<lfloor>real_of_int (samplingFreq_hz (sfxconfiguration s)) * valof (Finite m e)\<rfloor> * sizeof T) mod 2 ^ 32,
                volume = MAX_VOLUME h\<rparr>"
proof -
  define f where "f = samplingFreq_hz (sfxconfiguration s)"
  define x where "x = real_of_int f * valof (Finite m e)"
  define n where "n = \<lfloor>x\<rfloor>"
  from assms have f: "0 \<le> f" "f \<le> INT_MAX" "representable32 (real_of_int f)"
    and rep: "representable32 x" and small: "x < 2 ^ 31"
    by (simp_all add: f_def x_def)
  have x: "x = real_of_int f * (real_of_int m * 2 powr real_of_int e)"
    by (simp add: x_def)
  from f(1) assms(4) have x0: "0 \<le> x" by (simp add: x)
  then have n0: "0 \<le> n" by (simp add: n_def)
  from small have "n < 2 ^ 31" unfolding n_def by (simp add: floor_less_iff)
  then have n_max: "n \<le> INT_MAX" by (simp add: INT_MAX_def)
  from f(2) have "real_of_int f < 2 ^ 128" by (simp add: INT_MAX_def)
  with f(1,3) round_f32_representable [of f 0]
  obtain q t where q: "float_of_int f = Finite q t" "0 \<le> q"
    and qt: "real_of_int q * 2 powr real_of_int t = real_of_int f"
    by (auto simp: float_of_int_def)
  from qt have product: "real_of_int (q * m) * 2 powr real_of_int (t + e) = x"
    by (simp add: x powr_add mult_ac)
  from q(2) assms(4) have "0 \<le> q * m" by simp
  moreover from rep product have "representable32 (real_of_int (q * m) * 2 powr real_of_int (t + e))"
    by simp
  moreover from small product have "real_of_int (q * m) * 2 powr real_of_int (t + e) < 2 ^ 128"
    by simp
  ultimately obtain q' t' where q': "round_f32 (q * m) (t + e) = Finite q' t'" "0 \<le> q'"
    and val: "real_of_int q' * 2 powr real_of_int t' = x"
    using round_f32_representable [of "q * m" "t + e"] product by auto
  from q(1) q'(1) have "fmul (float_of_int f) (Finite m e) = Finite q' t'" by simp
  moreover have "n = \<lfloor>real_of_int q' * 2 powr real_of_int t'\<rfloor>"
    by (simp only: n_def val)
  with truncate_floor [OF q'(2), of t']
  have "(if 0 \<le> t' then q' * 2 ^ nat t' else sgn q' * (\<bar>q'\<bar> div 2 ^ nat (- t'))) = n"
    by (simp only:)
  moreover from n0 have "- INT_MAX - 1 \<le> n" by (simp add: INT_MAX_def)
  ultimately have "float_to_int (fmul (float_of_int f) (Finite m e)) = Inr n"
    using n_max by (simp only: float_to_int_def Let_def float32.case) simp
  with n0 have "generateSineBeep h T wave waveFreq_hz (Finite m e) s =
      Inr \<lparr>allocated = 1, abuf = map wave [0 ..< nat n],
           alen = (nat n * sizeof T) mod 2 ^ 32, volume = MAX_VOLUME h\<rparr>"
    by (simp add: generateSineBeep_def f_def [symmetric] errorSoundVolume_def)
  then show ?thesis
    unfolding n_def x_def f_def .
qed

theorem generateSineBeep_sample_count_witness:
  "0 \<le> samplingFreq_hz (sfxconfiguration studio)
   \<and> samplingFreq_hz (sfxconfiguration studio) \<le> INT_MAX
   \<and> representable32 (real_of_int (samplingFreq_hz (sfxconfiguration studio)))
   \<and> (0::int) \<le> 44739
   \<and> representable32 (real_of_int (samplingFreq_hz (sfxconfiguration studio)) * valof (Finite 44739 (- 16)))
   \<and> real_of_int (samplingFreq_hz (sfxconfiguration studio)) * valof (Finite 44739 (- 16)) < 2 ^ 31
   \<and> generateSineBeep example_header int16_t silence 200 (Finite 44739 (- 16)) studio =
        Inr \<lparr>allocated = 1, abuf = map silence [0 ..< 32767], alen = 65534, volume = 128\<rparr>"
proof -
  have freq: "samplingFreq_hz (sfxconfiguration studio) = 48000"
    by (simp add: studio_def fresh_def example_configuration_def)
  have p16: "(2::real) powr - 16 = 1 / 65536" using two_powr_int [of "- 16"] by simp
  have p9: "(2::real) powr - 9 = 1 / 512" using two_powr_int [of "- 9"] by simp
  have r1: "representable32 (real_of_int 48000)"
    unfolding representable32_def
    by (rule exI [of _ 48000], rule exI [of _ 0]) simp
  have r2: "representable32 (real_of_int 48000 * valof (Finite 44739 (- 16)))"
    unfolding representable32_def
    by (rule exI [of _ 16777125], rule exI [of _ "- 9"]) (simp add: p16 p9)
  have "real_of_int 48000 * valof (Finite 44739 (- 16)) = real_of_int 2147472000 / real_of_int 65536"
    by (simp add: p16)
  then have fl: "\<lfloor>real_of_int 48000 * valof (Finite 44739 (- 16))\<rfloor> = 32767"
    by (simp only: floor_divide_of_int_eq)
  have lt: "real_of_int 48000 * valof (Finite 44739 (- 16)) < 2 ^ 31"
    by (simp add: p16)
  show ?thesis
    using generateSineBeep_sample_count [of studio 44739 "- 16" example_header int16_t silence 200]
      r1 r2 fl lt
    by (simp add: freq INT_MAX_def example_header_def)
qed

end
